theory Spec2Isabelle
  imports Main "HOL-Library.Sublist"
begin

section \<open>The JavaScript host: time values and the Date object\<close>

text \<open>
  The screens of LocateApp compute their date windows with the built-in \<^verbatim>\<open>Date\<close>
  object. This section embeds the abstract operations of the ECMAScript specification
  (section "Date Objects") that \<^verbatim>\<open>setHours\<close>, \<^verbatim>\<open>setDate\<close>, \<^verbatim>\<open>setMonth\<close>,
  \<^verbatim>\<open>getDate\<close>, \<^verbatim>\<open>getDay\<close>, \<^verbatim>\<open>getMonth\<close>, \<^verbatim>\<open>getFullYear\<close>, the constructor
  and \<^verbatim>\<open>toISOString\<close> are defined by.

  A time value is a number of milliseconds since 1970-01-01T00:00:00Z. All the numbers
  that occur are integers far below \<open>2^53\<close>, where IEEE doubles are exact, so a
  JavaScript number is modelled as \<open>int option\<close>, with \<open>None\<close> for \<^verbatim>\<open>NaN\<close>.
\<close>

definition msPerDay :: int where
  "msPerDay = 86400000"

definition Day :: "int \<Rightarrow> int" where
  "Day t = t div msPerDay"

definition TimeWithinDay :: "int \<Rightarrow> int" where
  "TimeWithinDay t = t mod msPerDay"

definition DaysInYear :: "int \<Rightarrow> int" where
  "DaysInYear y =
     (if y mod 4 \<noteq> 0 then 365
      else if y mod 100 \<noteq> 0 then 366
      else if y mod 400 \<noteq> 0 then 365
      else 366)"

definition DayFromYear :: "int \<Rightarrow> int" where
  "DayFromYear y =
     365 * (y - 1970) + (y - 1969) div 4 - (y - 1901) div 100 + (y - 1601) div 400"

text \<open>
  ECMAScript defines \<^verbatim>\<open>YearFromTime(t)\<close> as the largest \<open>y\<close> with
  \<^verbatim>\<open>TimeFromYear(y) \<le> t\<close>. The function below computes it: an estimate from the mean
  length of a Gregorian year (146097 days in 400 years), corrected by at most one year.
  Lemma \<open>YearFromDay_largest\<close> proves that it is the year of the specification.
\<close>

definition YearFromDay :: "int \<Rightarrow> int" where
  "YearFromDay d =
     (let e = 1970 + (400 * d) div 146097
      in if DayFromYear (e + 1) \<le> d then e + 1
         else if DayFromYear e \<le> d then e
         else e - 1)"

definition YearFromTime :: "int \<Rightarrow> int" where
  "YearFromTime t = YearFromDay (Day t)"

definition InLeapYear :: "int \<Rightarrow> int" where
  "InLeapYear t = (if DaysInYear (YearFromTime t) = 366 then 1 else 0)"

definition DayWithinYear :: "int \<Rightarrow> int" where
  "DayWithinYear t = Day t - DayFromYear (YearFromTime t)"

definition MonthFromTime :: "int \<Rightarrow> int" where
  "MonthFromTime t =
     (let d = DayWithinYear t; l = InLeapYear t
      in if d < 31 then 0
         else if d < 59 + l then 1
         else if d < 90 + l then 2
         else if d < 120 + l then 3
         else if d < 151 + l then 4
         else if d < 181 + l then 5
         else if d < 212 + l then 6
         else if d < 243 + l then 7
         else if d < 273 + l then 8
         else if d < 304 + l then 9
         else if d < 334 + l then 10
         else 11)"

definition DateFromTime :: "int \<Rightarrow> int" where
  "DateFromTime t =
     (let d = DayWithinYear t; l = InLeapYear t; m = MonthFromTime t
      in if m = 0 then d + 1
         else if m = 1 then d - 30
         else if m = 2 then d - 58 - l
         else if m = 3 then d - 89 - l
         else if m = 4 then d - 119 - l
         else if m = 5 then d - 150 - l
         else if m = 6 then d - 180 - l
         else if m = 7 then d - 211 - l
         else if m = 8 then d - 242 - l
         else if m = 9 then d - 272 - l
         else if m = 10 then d - 303 - l
         else d - 333 - l)"

definition WeekDay :: "int \<Rightarrow> int" where
  "WeekDay t = (Day t + 4) mod 7"

definition HourFromTime :: "int \<Rightarrow> int" where
  "HourFromTime t = (t div 3600000) mod 24"

definition MinFromTime :: "int \<Rightarrow> int" where
  "MinFromTime t = (t div 60000) mod 60"

definition SecFromTime :: "int \<Rightarrow> int" where
  "SecFromTime t = (t div 1000) mod 60"

definition msFromTime :: "int \<Rightarrow> int" where
  "msFromTime t = t mod 1000"

definition MakeTime :: "int \<Rightarrow> int \<Rightarrow> int \<Rightarrow> int \<Rightarrow> int" where
  "MakeTime hour minute sec ms = hour * 3600000 + minute * 60000 + sec * 1000 + ms"

text \<open>
  \<open>MonthStart mn l\<close> is the day within the year on which month \<open>mn\<close> (0 = January)
  begins, \<open>l\<close> being 1 in a leap year and 0 otherwise: the lower bounds of the table of
  \<^verbatim>\<open>MonthFromTime\<close>. \<^verbatim>\<open>MakeDay\<close> asks for the day of the first of month \<open>mn\<close> of year
  \<open>ym\<close>; that is \<open>DayFromYear ym + MonthStart mn l\<close>, as lemma \<open>MakeDay_spec\<close> proves.
\<close>

definition MonthStart :: "int \<Rightarrow> int \<Rightarrow> int" where
  "MonthStart mn l =
     (if mn = 0 then 0
      else if mn = 1 then 31
      else if mn = 2 then 59 + l
      else if mn = 3 then 90 + l
      else if mn = 4 then 120 + l
      else if mn = 5 then 151 + l
      else if mn = 6 then 181 + l
      else if mn = 7 then 212 + l
      else if mn = 8 then 243 + l
      else if mn = 9 then 273 + l
      else if mn = 10 then 304 + l
      else 334 + l)"

definition MakeDay :: "int \<Rightarrow> int \<Rightarrow> int \<Rightarrow> int" where
  "MakeDay year month date =
     (let ym = year + month div 12;
          mn = month mod 12;
          l = (if DaysInYear ym = 366 then 1 else 0)
      in DayFromYear ym + MonthStart mn l + date - 1)"

definition MakeDate :: "int \<Rightarrow> int \<Rightarrow> int" where
  "MakeDate day time = day * msPerDay + time"

definition MakeFullYear :: "int \<Rightarrow> int" where
  "MakeFullYear year = (if 0 \<le> year \<and> year \<le> 99 then 1900 + year else year)"

definition TimeClip :: "int \<Rightarrow> int option" where
  "TimeClip t = (if \<bar>t\<bar> > 8640000000000000 then None else Some t)"

text \<open>
  What the program cannot fix is left as a parameter of the host: the time zone and
  \<^verbatim>\<open>Date.parse\<close>, whose result on strings outside the ISO format is
  implementation-defined.

  The time zone is the function \<^verbatim>\<open>LocalTZA(t, isUTC)\<close> of ECMAScript, the local time zone
  adjustment in milliseconds. With \<open>isUTC\<close> true, \<open>t\<close> is an instant and the result is the
  offset in force at that instant, daylight saving included. With \<open>isUTC\<close> false, \<open>t\<close> is a
  local time; a local time that a transition repeats or skips is read with the offset
  before the transition. \<^verbatim>\<open>LocalTime\<close> and \<^verbatim>\<open>UTC\<close> are the two conversions.
\<close>

record host =
  LocalTZA :: "int \<Rightarrow> bool \<Rightarrow> int"
  Date_parse :: "string \<Rightarrow> int option"

definition LocalTime :: "host \<Rightarrow> int \<Rightarrow> int" where
  "LocalTime h t = t + LocalTZA h t True"

definition UTC :: "host \<Rightarrow> int \<Rightarrow> int" where
  "UTC h t = t - LocalTZA h t False"

subsection \<open>Number operators\<close>

definition num_add :: "int option \<Rightarrow> int option \<Rightarrow> int option" where
  "num_add a b = (case (a, b) of (Some x, Some y) \<Rightarrow> Some (x + y) | _ \<Rightarrow> None)"

definition num_sub :: "int option \<Rightarrow> int option \<Rightarrow> int option" where
  "num_sub a b = (case (a, b) of (Some x, Some y) \<Rightarrow> Some (x - y) | _ \<Rightarrow> None)"

text \<open>Relational operators: any comparison with \<^verbatim>\<open>NaN\<close> is false.\<close>

definition num_ge :: "int option \<Rightarrow> int option \<Rightarrow> bool" where
  "num_ge a b = (case (a, b) of (Some x, Some y) \<Rightarrow> x \<ge> y | _ \<Rightarrow> False)"

definition num_le :: "int option \<Rightarrow> int option \<Rightarrow> bool" where
  "num_le a b = (case (a, b) of (Some x, Some y) \<Rightarrow> x \<le> y | _ \<Rightarrow> False)"

definition num_gt :: "int option \<Rightarrow> int option \<Rightarrow> bool" where
  "num_gt a b = (case (a, b) of (Some x, Some y) \<Rightarrow> x > y | _ \<Rightarrow> False)"

subsection \<open>Date objects\<close>

text \<open>
  A Date object is its time value (\<open>None\<close> is the invalid date). A setter returns the
  new time value, as in JavaScript; the programs below only use that returned number or
  a Date that is not shared, so no store of objects is needed.
\<close>

definition new_Date_value :: "host \<Rightarrow> string option \<Rightarrow> int option" where
  \<comment> \<open>\<^verbatim>\<open>new Date(v)\<close> for \<open>v\<close> a string or \<^verbatim>\<open>undefined\<close>\<close>
  "new_Date_value h v =
     (case v of None \<Rightarrow> None | Some s \<Rightarrow> Option.bind (Date_parse h s) TimeClip)"

definition new_Date_number :: "int option \<Rightarrow> int option" where
  \<comment> \<open>\<^verbatim>\<open>new Date(n)\<close> for a number \<open>n\<close>\<close>
  "new_Date_number n = Option.bind n TimeClip"

definition new_Date_ymd :: "host \<Rightarrow> int option \<Rightarrow> int option \<Rightarrow> int option \<Rightarrow> int option" where
  \<comment> \<open>\<^verbatim>\<open>new Date(year, month, date)\<close>\<close>
  "new_Date_ymd h year month date =
     (case (year, month, date) of
        (Some y, Some m, Some dt) \<Rightarrow>
          TimeClip (UTC h (MakeDate (MakeDay (MakeFullYear y) m dt) (MakeTime 0 0 0 0)))
      | _ \<Rightarrow> None)"

definition getFullYear :: "host \<Rightarrow> int option \<Rightarrow> int option" where
  "getFullYear h tv = map_option (\<lambda>t. YearFromTime (LocalTime h t)) tv"

definition getMonth :: "host \<Rightarrow> int option \<Rightarrow> int option" where
  "getMonth h tv = map_option (\<lambda>t. MonthFromTime (LocalTime h t)) tv"

definition getDate :: "host \<Rightarrow> int option \<Rightarrow> int option" where
  "getDate h tv = map_option (\<lambda>t. DateFromTime (LocalTime h t)) tv"

definition getDay :: "host \<Rightarrow> int option \<Rightarrow> int option" where
  "getDay h tv = map_option (\<lambda>t. WeekDay (LocalTime h t)) tv"

definition setHours :: "host \<Rightarrow> int option \<Rightarrow> int \<Rightarrow> int \<Rightarrow> int \<Rightarrow> int \<Rightarrow> int option" where
  "setHours h tv hour minute sec ms =
     (case tv of
        None \<Rightarrow> None
      | Some t \<Rightarrow>
          TimeClip (UTC h (MakeDate (Day (LocalTime h t)) (MakeTime hour minute sec ms))))"

definition setDate :: "host \<Rightarrow> int option \<Rightarrow> int option \<Rightarrow> int option" where
  "setDate h tv date =
     (case (tv, date) of
        (Some t0, Some dt) \<Rightarrow>
          (let t = LocalTime h t0
           in TimeClip (UTC h (MakeDate (MakeDay (YearFromTime t) (MonthFromTime t) dt)
                                        (TimeWithinDay t))))
      | _ \<Rightarrow> None)"

definition setMonth :: "host \<Rightarrow> int option \<Rightarrow> int option \<Rightarrow> int option" where
  "setMonth h tv month =
     (case (tv, month) of
        (Some t0, Some m) \<Rightarrow>
          (let t = LocalTime h t0
           in TimeClip (UTC h (MakeDate (MakeDay (YearFromTime t) m (DateFromTime t))
                                        (TimeWithinDay t))))
      | _ \<Rightarrow> None)"

datatype js_error = RangeError | TypeError

fun pad_digits :: "nat \<Rightarrow> nat \<Rightarrow> string" where
  "pad_digits 0 n = []"
| "pad_digits (Suc k) n = pad_digits k (n div 10) @ [char_of (48 + n mod 10)]"

definition toISOString :: "int option \<Rightarrow> js_error + string" where
  \<comment> \<open>\<^verbatim>\<open>YYYY-MM-DDTHH:mm:ss.sssZ\<close> in UTC; years outside 0..9999 take a sign and six
      digits; an invalid date throws a RangeError\<close>
  "toISOString tv =
     (case tv of
        None \<Rightarrow> Inl RangeError
      | Some t \<Rightarrow>
          (let y = YearFromTime t;
               year = (if 0 \<le> y \<and> y \<le> 9999 then pad_digits 4 (nat y)
                       else (if y < 0 then ''-'' else ''+'') @ pad_digits 6 (nat \<bar>y\<bar>))
           in Inr (year @ ''-'' @ pad_digits 2 (nat (MonthFromTime t + 1))
                   @ ''-'' @ pad_digits 2 (nat (DateFromTime t))
                   @ ''T'' @ pad_digits 2 (nat (HourFromTime t))
                   @ '':'' @ pad_digits 2 (nat (MinFromTime t))
                   @ '':'' @ pad_digits 2 (nat (SecFromTime t))
                   @ ''.'' @ pad_digits 3 (nat (msFromTime t)) @ ''Z'')))"

subsection \<open>Strings\<close>

text \<open>
  Strings are lists of 8-bit characters, read as Latin-1 code units.
  \<^verbatim>\<open>toLowerCase\<close> maps A..Z and the accented capitals of Latin-1 to their small letters.
  \<open>str_includes s f\<close> is \<^verbatim>\<open>s.includes(f)\<close>.
\<close>

definition toLowerCase_char :: "char \<Rightarrow> char" where
  "toLowerCase_char c =
     (let n = (of_char c :: nat)
      in if (65 \<le> n \<and> n \<le> 90) \<or> (192 \<le> n \<and> n \<le> 222 \<and> n \<noteq> 215)
         then char_of (n + 32) else c)"

definition toLowerCase :: "string \<Rightarrow> string" where
  "toLowerCase s = map toLowerCase_char s"

fun str_includes :: "string \<Rightarrow> string \<Rightarrow> bool" where
  "str_includes [] f = (f = [])"
| "str_includes (c # cs) f = (prefix f (c # cs) \<or> str_includes cs f)"

definition or_default :: "string option \<Rightarrow> string \<Rightarrow> string" where
  \<comment> \<open>\<^verbatim>\<open>x || d\<close> for \<open>x\<close> a string or \<^verbatim>\<open>undefined\<close>: the empty string is falsy too\<close>
  "or_default x d = (case x of None \<Rightarrow> d | Some s \<Rightarrow> if s = [] then d else s)"

definition template_value :: "string option \<Rightarrow> string" where
  \<comment> \<open>\<^verbatim>\<open>${x}\<close> inside a template literal\<close>
  "template_value x = (case x of None \<Rightarrow> ''undefined'' | Some s \<Rightarrow> s)"

section \<open>Events and the event fetch (App.js)\<close>

record event =
  event_id :: "string option"
  name :: "string option"
  category :: "string option"
  subcategory :: "string option"
  date :: "string option"
  venueName :: "string option"
  imageUrl :: string
  address :: string

text \<open>
  The part of a Ticketmaster event payload that the normalizer reads. An absent
  property, and an absent object on the way to it (the \<^verbatim>\<open>?.\<close> chains), is \<open>None\<close>.
\<close>

record raw_classification =
  segment_name :: "string option"
  subGenre_name :: "string option"

record raw_venue =
  venue_name :: "string option"
  address_line1 :: "string option"
  city_name :: "string option"
  state_stateCode :: "string option"

record raw_image =
  ratio :: "string option"
  url :: "string option"

record raw_event =
  raw_id :: "string option"
  raw_name :: "string option"
  classifications :: "raw_classification list option"
  dates_start_dateTime :: "string option"
  embedded_venues :: "raw_venue list option"
  images :: "raw_image list option"

definition first_of :: "'a list option \<Rightarrow> 'a option" where
  \<comment> \<open>\<^verbatim>\<open>xs?.[0]\<close>\<close>
  "first_of xs = (case xs of None \<Rightarrow> None | Some [] \<Rightarrow> None | Some (x # _) \<Rightarrow> Some x)"

definition normalizeEvent :: "raw_event \<Rightarrow> event" where
  \<comment> \<open>the arrow function mapped over \<^verbatim>\<open>data._embedded.events\<close>, App.js lines 39-48\<close>
  "normalizeEvent ev =
     \<lparr> event_id = raw_id ev,
       name = raw_name ev,
       category =
         Some (or_default (Option.bind (first_of (classifications ev)) segment_name) ''Social''),
       subcategory =
         Some (or_default (Option.bind (first_of (classifications ev)) subGenre_name) ''N/A''),
       date = dates_start_dateTime ev,
       venueName = Option.bind (first_of (embedded_venues ev)) venue_name,
       imageUrl =
         or_default
           (Option.bind
              (Option.bind (images ev) (List.find (\<lambda>img. ratio img = Some ''16_9''))) url)
           ''https://placehold.co/600x400/1a202c/ffffff?text=Event'',
       address =
         template_value (Option.bind (first_of (embedded_venues ev)) address_line1) @ '', '' @
         template_value (Option.bind (first_of (embedded_venues ev)) city_name) @ '', '' @
         template_value (Option.bind (first_of (embedded_venues ev)) state_stateCode) \<rparr>"

text \<open>
  \<^verbatim>\<open>mockApi.fetchTicketmasterEvents\<close> reads the clock four times (\<^verbatim>\<open>today\<close>,
  \<^verbatim>\<open>tomorrow\<close>, \<^verbatim>\<open>nextWeek\<close>, \<^verbatim>\<open>nextMonth\<close> are each a fresh \<^verbatim>\<open>new Date()\<close>); the
  four readings are the fields of \<open>mock_clock\<close>. The simulated delay is left out.
  \<^verbatim>\<open>toISOString\<close> throws on an invalid date, so the result is a sum.
\<close>

record mock_clock =
  today_reading :: int
  tomorrow_reading :: int
  nextWeek_reading :: int
  nextMonth_reading :: int

definition mockApi_fetchTicketmasterEvents :: "host \<Rightarrow> mock_clock \<Rightarrow> js_error + event list" where
  "mockApi_fetchTicketmasterEvents h clk =
     (let today = Some (today_reading clk);
          tomorrow = setDate h (Some (tomorrow_reading clk)) (num_add (getDate h today) (Some 1));
          nextWeek = setDate h (Some (nextWeek_reading clk)) (num_add (getDate h today) (Some 7));
          nextMonth = setMonth h (Some (nextMonth_reading clk)) (num_add (getMonth h today) (Some 1))
      in case (toISOString today, toISOString tomorrow, toISOString nextWeek, toISOString nextMonth) of
           (Inr d_today, Inr d_tomorrow, Inr d_nextWeek, Inr d_nextMonth) \<Rightarrow>
             Inr [ \<lparr> event_id = Some ''tm-1'', name = Some ''Mock: Indie Showcase'',
                     category = Some ''Music'', subcategory = None, date = Some d_today,
                     venueName = Some ''The Mockingbird Theater'',
                     imageUrl = ''https://placehold.co/600x400/1a202c/ffffff?text=Mock+Music'',
                     address = ''123 Mock St, Denver, CO'' \<rparr>,
                   \<lparr> event_id = Some ''tm-2'', name = Some ''Mock: Broncos Game'',
                     category = Some ''Sports'', subcategory = Some ''NFL'', date = Some d_today,
                     venueName = Some ''Mock Field'',
                     imageUrl = ''https://placehold.co/600x400/FB4F14/ffffff?text=Mock+Football'',
                     address = ''456 Mock Ave, Denver, CO'' \<rparr>,
                   \<lparr> event_id = Some ''tm-3'', name = Some ''Mock: Jazz Night'',
                     category = Some ''Music'', subcategory = None, date = Some d_tomorrow,
                     venueName = Some ''The Mock Note'',
                     imageUrl = ''https://placehold.co/600x400/4a5568/ffffff?text=Mock+Jazz'',
                     address = ''789 Mock Blvd, Denver, CO'' \<rparr>,
                   \<lparr> event_id = Some ''tm-4'', name = Some ''Mock: Nuggets Game'',
                     category = Some ''Sports'', subcategory = Some ''NBA'', date = Some d_nextWeek,
                     venueName = Some ''Mock Arena'',
                     imageUrl = ''https://placehold.co/600x400/0E2240/ffffff?text=Mock+Basketball'',
                     address = ''111 Mock Ct, Denver, CO'' \<rparr>,
                   \<lparr> event_id = Some ''tm-5'', name = Some ''Mock: Art Festival'',
                     category = Some ''Social'', subcategory = None, date = Some d_nextMonth,
                     venueName = Some ''Mock Museum'',
                     imageUrl = ''https://placehold.co/600x400/718096/ffffff?text=Mock+Art'',
                     address = ''222 Mock Ln, Denver, CO'' \<rparr> ]
         | _ \<Rightarrow> Inl RangeError)"

text \<open>
  What \<^verbatim>\<open>fetch\<close> and \<^verbatim>\<open>response.json()\<close> deliver: an exception (network error,
  body that is not JSON), or the decoded body, of which the program reads
  \<^verbatim>\<open>data._embedded.events\<close> (\<open>None\<close> when \<^verbatim>\<open>_embedded\<close> or \<^verbatim>\<open>events\<close> is absent).
  The arguments city, stateCode, radius and category only build the request URL.
\<close>

datatype fetch_outcome = TransportFailure | Json "raw_event list option"

definition api_fetchTicketmasterEvents ::
  "host \<Rightarrow> mock_clock \<Rightarrow> fetch_outcome \<Rightarrow> js_error + event list" where
  "api_fetchTicketmasterEvents h clk outcome =
     (case outcome of
        TransportFailure \<Rightarrow> mockApi_fetchTicketmasterEvents h clk
      | Json embedded_events \<Rightarrow>
          (case embedded_events of
             None \<Rightarrow> mockApi_fetchTicketmasterEvents h clk
           | Some evs \<Rightarrow>
               if length evs = 0 then mockApi_fetchTicketmasterEvents h clk
               else Inr (map normalizeEvent evs)))"

section \<open>The filters of SportsScreen.js and MusicScreen.js\<close>

text \<open>
  Both screens compute the same five instants from \<^verbatim>\<open>now = new Date()\<close>
  (SportsScreen.js lines 41-46, MusicScreen.js lines 43-48) and the same
  \<^verbatim>\<open>timeMatch\<close> (lines 49-54 and 51-56); \<open>now\<close> is the clock reading.
\<close>

definition startOfDay :: "host \<Rightarrow> int \<Rightarrow> int option" where
  "startOfDay h now = setHours h (new_Date_number (Some now)) 0 0 0 0"

definition endOfDay :: "host \<Rightarrow> int \<Rightarrow> int option" where
  "endOfDay h now = setHours h (new_Date_number (Some now)) 23 59 59 999"

definition endOfWeek :: "host \<Rightarrow> int \<Rightarrow> int option" where
  "endOfWeek h now =
     setDate h (new_Date_number (startOfDay h now))
       (num_add (num_sub (getDate h (new_Date_number (startOfDay h now)))
                         (getDay h (new_Date_number (startOfDay h now))))
                (Some 7))"

definition endOfMonth :: "host \<Rightarrow> int \<Rightarrow> int option" where
  "endOfMonth h now =
     setHours h
       (new_Date_ymd h (getFullYear h (Some now)) (num_add (getMonth h (Some now)) (Some 1)) (Some 0))
       23 59 59 999"

definition endOfNextMonth :: "host \<Rightarrow> int \<Rightarrow> int option" where
  "endOfNextMonth h now =
     setHours h
       (new_Date_ymd h (getFullYear h (Some now)) (num_add (getMonth h (Some now)) (Some 2)) (Some 0))
       23 59 59 999"

definition timeMatch :: "host \<Rightarrow> int \<Rightarrow> string \<Rightarrow> event \<Rightarrow> bool" where
  "timeMatch h now timeFilter ev =
     (let eventDate = new_Date_value h (date ev)
      in if timeFilter = ''Today'' then
           num_ge eventDate (startOfDay h now) \<and> num_le eventDate (endOfDay h now)
         else if timeFilter = ''This Week'' then
           num_ge eventDate (startOfDay h now) \<and> num_le eventDate (endOfWeek h now)
         else if timeFilter = ''This Month'' then
           num_ge eventDate (startOfDay h now) \<and> num_le eventDate (endOfMonth h now)
         else if timeFilter = ''Next Month'' then
           num_gt eventDate (endOfMonth h now) \<and> num_le eventDate (endOfNextMonth h now)
         else False)"

text \<open>
  \<^verbatim>\<open>categoryMatch\<close> holds a JavaScript value that the filter callback returns through
  \<^verbatim>\<open>timeMatch && categoryMatch\<close>; the model keeps its truthiness.
  \<^verbatim>\<open>event.subcategory && event.subcategory.includes(f)\<close> is truthy when the subcategory
  is a non-empty string that includes \<open>f\<close> (\<^verbatim>\<open>undefined\<close> and \<^verbatim>\<open>""\<close> are falsy).
\<close>

definition SportsScreen_categoryMatch :: "string \<Rightarrow> event \<Rightarrow> bool" where
  "SportsScreen_categoryMatch categoryFilter ev =
     (if categoryFilter = ''Sports'' then True
      else if categoryFilter \<in> set [''NFL'', ''NBA'', ''MLB'', ''NHL''] then
        (case subcategory ev of
           None \<Rightarrow> False
         | Some s \<Rightarrow> s \<noteq> [] \<and> str_includes s categoryFilter)
      else False)"

definition SportsScreen_filteredEvents ::
  "host \<Rightarrow> int \<Rightarrow> event list \<Rightarrow> string \<Rightarrow> string \<Rightarrow> event list" where
  "SportsScreen_filteredEvents h now events timeFilter categoryFilter =
     filter (\<lambda>ev. timeMatch h now timeFilter ev \<and> SportsScreen_categoryMatch categoryFilter ev)
       events"


definition MusicScreen_categoryMatch :: "string \<Rightarrow> event \<Rightarrow> bool" where
  "MusicScreen_categoryMatch genreFilter ev =
     (if genreFilter = ''Music'' then True
      else (case subcategory ev of
              None \<Rightarrow> False
            | Some s \<Rightarrow> s \<noteq> [] \<and> str_includes (toLowerCase s) (toLowerCase genreFilter)))"

definition MusicScreen_filteredEvents ::
  "host \<Rightarrow> int \<Rightarrow> event list \<Rightarrow> string \<Rightarrow> string \<Rightarrow> event list" where
  "MusicScreen_filteredEvents h now events timeFilter genreFilter =
     filter (\<lambda>ev. timeMatch h now timeFilter ev \<and> MusicScreen_categoryMatch genreFilter ev)
       events"

section \<open>The application state and the suggestion modal (App.js)\<close>










text \<open>
  \<^verbatim>\<open>FindMyNightModal\<close> (App.js lines 340-367) renders \<^verbatim>\<open>null\<close> unless it is visible and
  has an event: \<open>Inr None\<close>. Otherwise it renders the card of the event, \<open>Inr (Some e)\<close>;
  the sub-header evaluates \<^verbatim>\<open>event.category.toLowerCase()\<close> (line 346), which throws a
  TypeError for an event without category. The other expressions of the card do not
  throw (\<^verbatim>\<open>event.googleData?.rating\<close>, and \<^verbatim>\<open>toLocaleTimeString\<close> of an invalid date is
  the text "Invalid Date").
\<close>

definition FindMyNightModal :: "bool \<Rightarrow> event option \<Rightarrow> js_error + event option" where
  "FindMyNightModal visible ev =
     (if \<not> visible then Inr None
      else case ev of
             None \<Rightarrow> Inr None
           | Some e \<Rightarrow> (case category e of None \<Rightarrow> Inl TypeError | Some _ \<Rightarrow> Inr (Some e)))"











section \<open>NightPicker\<close>

text \<open>
  Modelled from the spec: the pick operation of NightPicker. App.js holds only its call
  site (the button of \<^verbatim>\<open>DiscoverScreen\<close>, line 279, calls \<^verbatim>\<open>onFindMyNight(events)\<close>);
  no source file defines the handler. Section 4.3 of the specification: "Selects one
  element uniformly at random from candidates. If candidates is empty, returns none".
  The random draw is the argument \<open>r\<close>; the element picked is the one at position
  \<open>r mod length candidates\<close>, so that a draw uniform on \<open>{0..<length candidates}\<close>
  picks every position with the same probability.
\<close>

definition pick :: "nat \<Rightarrow> event list \<Rightarrow> event option" where
  "pick r candidates =
     (if candidates = [] then None else Some (candidates ! (r mod length candidates)))"

section \<open>Notions used in the statements\<close>

text \<open>
  The length of month \<open>mn\<close> (0 = January) of year \<open>y\<close>, and the last day of a month:
  the local date of \<open>now\<close> is the last of its month when its day-of-month is the
  length of the month.
\<close>

definition DaysInMonth :: "int \<Rightarrow> int \<Rightarrow> int" where
  "DaysInMonth y mn =
     (if mn = 1 then (if DaysInYear y = 366 then 29 else 28)
      else if mn = 3 \<or> mn = 5 \<or> mn = 8 \<or> mn = 10 then 30
      else 31)"


text \<open>
  The calendar date (year, month from 0, day of month) of a local time, the local day
  number and the local calendar date of an instant, and the same day of the following
  month, when that month has such a day.
\<close>

definition calendarDate :: "int \<Rightarrow> int \<times> int \<times> int" where
  "calendarDate t = (YearFromTime t, MonthFromTime t, DateFromTime t)"

definition localDay :: "host \<Rightarrow> int \<Rightarrow> int" where
  "localDay h t = Day (LocalTime h t)"

definition localDate :: "host \<Rightarrow> int \<Rightarrow> int \<times> int \<times> int" where
  "localDate h t = calendarDate (LocalTime h t)"

definition nextMonthDate :: "int \<times> int \<times> int \<Rightarrow> (int \<times> int \<times> int) option" where
  "nextMonthDate ymd =
     (case ymd of (y, m, d) \<Rightarrow>
        if d \<le> DaysInMonth (y + (m + 1) div 12) ((m + 1) mod 12)
        then Some (y + (m + 1) div 12, (m + 1) mod 12, d) else None)"

text \<open>
  The day number of the last day of the month of a local time \<open>t\<close>, and of the last day
  of the month after it.
\<close>

definition monthEnd :: "int \<Rightarrow> int" where
  "monthEnd t = Day t - DateFromTime t + DaysInMonth (YearFromTime t) (MonthFromTime t)"

definition nextMonthEnd :: "int \<Rightarrow> int" where
  "nextMonthEnd t =
     monthEnd t
     + DaysInMonth (YearFromTime t + (MonthFromTime t + 1) div 12) ((MonthFromTime t + 1) mod 12)"

text \<open>
  \<^verbatim>\<open>new Date(year, month, day)\<close> reads a year from 0 to 99 as 1900 + year.
\<close>

definition two_digit_year :: "int \<Rightarrow> bool" where
  "two_digit_year y \<longleftrightarrow> 0 \<le> y \<and> y \<le> 99"

text \<open>
  A clock reading is a time value; ECMAScript time values end 100,000,000 days on
  either side of the epoch, and a Date computed beyond them is invalid. \<open>clock_range\<close>
  keeps the reading 1000 days inside the range, so that every instant the programs
  derive from the reading is a valid date.
\<close>

definition clock_range :: "int \<Rightarrow> bool" where
  "clock_range now \<longleftrightarrow> \<bar>now\<bar> \<le> 8640000000000000 - 1000 * msPerDay"

text \<open>
  What the statements ask of a time zone. \<open>zone_regular\<close>: every adjustment is within a
  day, any two adjustments differ by less than a day, and a local time converted to UTC
  and back is not earlier than it was (it is the same local time, or a later one when a
  transition skips it). \<open>local_time_exists\<close>: the conversion to UTC and back gives the
  local time itself, that is, no transition skips it. \<open>zone_steady\<close>: the local times of
  the local day of \<open>now\<close> and of the day after it are read with the offset in force at
  \<open>now\<close>, that is, no transition falls in these two days.
\<close>

definition zone_regular :: "host \<Rightarrow> bool" where
  "zone_regular h \<longleftrightarrow>
     (\<forall>t b. \<bar>LocalTZA h t b\<bar> \<le> msPerDay) \<and>
     (\<forall>t b t' b'. LocalTZA h t b - LocalTZA h t' b' < msPerDay) \<and>
     (\<forall>lt. lt \<le> LocalTime h (UTC h lt))"

definition local_time_exists :: "host \<Rightarrow> int \<Rightarrow> bool" where
  "local_time_exists h lt \<longleftrightarrow> LocalTime h (UTC h lt) = lt"


text \<open>
  \<open>monthEndDay h now k\<close> is the day number that \<^verbatim>\<open>new Date(now.getFullYear(),
  now.getMonth() + k, 0)\<close> asks for.
\<close>

definition monthEndDay :: "host \<Rightarrow> int \<Rightarrow> int \<Rightarrow> int" where
  "monthEndDay h now k =
     MakeDay (MakeFullYear (YearFromTime (LocalTime h now))) (MonthFromTime (LocalTime h now) + k) 0"

text \<open>
  Concrete hosts for the examples. \<^verbatim>\<open>Date.parse\<close> reads the complete date-time form
  \<^verbatim>\<open>YYYY-MM-DDTHH:mm:ss\<close>, optionally followed by \<^verbatim>\<open>.sss\<close> and by \<^verbatim>\<open>Z\<close>; without
  \<^verbatim>\<open>Z\<close> the string is a local time, converted as \<^verbatim>\<open>UTC\<close> does. Every other string is
  unparseable for these hosts.
\<close>

definition digit_val :: "char \<Rightarrow> nat option" where
  "digit_val c =
     (let n = (of_char c :: nat) in if 48 \<le> n \<and> n \<le> 57 then Some (n - 48) else None)"

fun digits_val :: "nat \<Rightarrow> string \<Rightarrow> nat option" where
  "digits_val acc [] = Some acc"
| "digits_val acc (c # cs) =
     (case digit_val c of None \<Rightarrow> None | Some v \<Rightarrow> digits_val (10 * acc + v) cs)"

definition decimal :: "string \<Rightarrow> int option" where
  "decimal s = (if s = [] then None else map_option int (digits_val 0 s))"

definition iso_Date_parse :: "(int \<Rightarrow> bool \<Rightarrow> int) \<Rightarrow> string \<Rightarrow> int option" where
  "iso_Date_parse tza s =
     (let rest = drop 19 s;
          frac = (if take 1 rest = ''.'' then take 4 rest else []);
          zone = drop (length frac) rest
      in if length s < 19 then None
         else if [s ! 4, s ! 7, s ! 10, s ! 13, s ! 16] \<noteq> ''--T::'' then None
         else if frac \<noteq> [] \<and> length frac \<noteq> 4 then None
         else if zone \<noteq> [] \<and> zone \<noteq> ''Z'' then None
         else
           (case (decimal (take 4 s), decimal (take 2 (drop 5 s)), decimal (take 2 (drop 8 s)),
                  decimal (take 2 (drop 11 s)), decimal (take 2 (drop 14 s)),
                  decimal (take 2 (drop 17 s)),
                  if frac = [] then Some 0 else decimal (drop 1 frac)) of
              (Some y, Some mo, Some d, Some hh, Some mi, Some ss, Some ms) \<Rightarrow>
                if 1 \<le> mo \<and> mo \<le> 12 \<and> 1 \<le> d \<and> d \<le> DaysInMonth y (mo - 1)
                   \<and> hh \<le> 23 \<and> mi \<le> 59 \<and> ss \<le> 59
                then (let local = MakeDate (MakeDay y (mo - 1) d) (MakeTime hh mi ss ms)
                      in TimeClip (if zone = ''Z'' then local else local - tza local False))
                else None
            | _ \<Rightarrow> None))"

definition zone_host :: "(int \<Rightarrow> bool \<Rightarrow> int) \<Rightarrow> host" where
  "zone_host tza = \<lparr> LocalTZA = tza, Date_parse = iso_Date_parse tza \<rparr>"

text \<open>
  Two kinds of zone. \<open>fixed_zone z\<close> has the offset \<open>z\<close> at all times. \<open>shifting_zone T
  a b\<close> has one transition, at the instant \<open>T\<close>, from the offset \<open>a\<close> to the offset \<open>b\<close>. When
  the clocks go forward (\<open>a < b\<close>) the local times from \<open>T + a\<close> up to \<open>T + b\<close> are skipped,
  when they go back (\<open>b < a\<close>) the local times from \<open>T + b\<close> up to \<open>T + a\<close> occur twice; both
  are read with the offset \<open>a\<close> of before the transition, as ECMAScript prescribes.
\<close>

definition fixed_zone :: "int \<Rightarrow> int \<Rightarrow> bool \<Rightarrow> int" where
  "fixed_zone z t isUTC = z"

definition shifting_zone :: "int \<Rightarrow> int \<Rightarrow> int \<Rightarrow> int \<Rightarrow> bool \<Rightarrow> int" where
  "shifting_zone T a b t isUTC =
     (if isUTC then (if t < T then a else b)
      else (if t < T + max a b then a else b))"

text \<open>
  The inputs of the examples: a host six hours behind UTC (Denver in summer, the
  application's default city), the clock reading 2025-06-15T12:00:00 of that host (a
  Sunday), an event of which only the subcategory and the date vary, and four clock
  readings a millisecond apart for the mock list, from 2025-01-31T12:00:00 of that host.
\<close>

definition example_host :: host where
  "example_host = zone_host (fixed_zone (- 21600000))"

definition example_now :: int where
  "example_now = 1750010400000"

definition example_event :: "string option \<Rightarrow> string option \<Rightarrow> event" where
  "example_event sub d =
     \<lparr> event_id = Some ''ev-1'', name = Some ''Evening game'', category = Some ''Sports'',
       subcategory = sub, date = d, venueName = Some ''Mile High'',
       imageUrl = ''https://placehold.co/600x400/1a202c/ffffff?text=Event'',
       address = ''1701 Bryant St, Denver, CO'' \<rparr>"

definition month_end_clock :: mock_clock where
  "month_end_clock =
     \<lparr> today_reading = 1738346400000, tomorrow_reading = 1738346400001,
       nextWeek_reading = 1738346400002, nextMonth_reading = 1738346400003 \<rparr>"

text \<open>
  Three hosts with a daylight-saving transition of 2025, each as the zone with that one
  transition. Denver: on 9 March at 09:00:00Z from seven to six hours behind UTC (local
  02:00 to 03:00 is skipped). Havana: on 9 March at 05:00:00Z from five to four hours
  behind UTC (the clocks go from 00:00 to 01:00, so the local midnight of that Sunday is
  skipped). Santiago: on 6 April at 03:00:00Z from three to four hours behind UTC (the
  clocks go back from 24:00 to 23:00, so the last hour of Saturday 5 April occurs twice).
\<close>

definition denver_2025 :: host where
  "denver_2025 = zone_host (shifting_zone 1741510800000 (- 25200000) (- 21600000))"

definition havana_2025 :: host where
  "havana_2025 = zone_host (shifting_zone 1741496400000 (- 18000000) (- 14400000))"

definition santiago_2025 :: host where
  "santiago_2025 = zone_host (shifting_zone 1743908400000 (- 10800000) (- 14400000))"

section \<open>The calendar of the host\<close>

lemma div_bracket:
  fixes a k :: int
  assumes "0 < k"
  shows "k * (a div k) \<le> a" and "a < k * (a div k) + k"
proof -
  have "a = k * (a div k) + a mod k" by simp
  moreover have "0 \<le> a mod k" "a mod k < k" using assms by simp_all
  ultimately show "k * (a div k) \<le> a" and "a < k * (a div k) + k" by linarith+
qed

lemma DayFromYear_bounds:
  "400 * DayFromYear y \<le> 146097 * y - 287810501"
  "146097 * y - 287811596 \<le> 400 * DayFromYear y"
proof -
  define q4 where "q4 = (y - 1969) div 4"
  define q100 where "q100 = (y - 1901) div 100"
  define q400 where "q400 = (y - 1601) div 400"
  have a: "4 * q4 \<le> y - 1969" "y - 1969 < 4 * q4 + 4"
    unfolding q4_def by (rule div_bracket; simp)+
  have b: "100 * q100 \<le> y - 1901" "y - 1901 < 100 * q100 + 100"
    unfolding q100_def by (rule div_bracket; simp)+
  have c: "400 * q400 \<le> y - 1601" "y - 1601 < 400 * q400 + 400"
    unfolding q400_def by (rule div_bracket; simp)+
  have d: "400 * DayFromYear y = 146000 * y - 287620000 + 400 * q4 - 400 * q100 + 400 * q400"
    by (simp add: DayFromYear_def q4_def q100_def q400_def algebra_simps)
  show "400 * DayFromYear y \<le> 146097 * y - 287810501"
    unfolding d using a b c by linarith
  show "146097 * y - 287811596 \<le> 400 * DayFromYear y"
    unfolding d using a b c by linarith
qed

lemma div_step:
  fixes a k :: int
  assumes k: "1 < k"
  shows "(a + 1) div k = (if (a + 1) mod k = 0 then a div k + 1 else a div k)"
proof -
  define q where "q = (a + 1) div k"
  define r where "r = (a + 1) mod k"
  have e: "a + 1 = k * q + r" by (simp add: q_def r_def)
  have r: "0 \<le> r" "r < k" using k by (simp_all add: r_def)
  show ?thesis
  proof (cases "r = 0")
    case True
    have "a = k * (q - 1) + (k - 1)" using e True by (simp add: algebra_simps)
    moreover have "0 \<le> k - 1" "k - 1 < k" using k by simp_all
    ultimately have "a div k = q - 1"
      by (rule int_div_pos_eq)
    with True show ?thesis by (simp add: q_def [symmetric] r_def [symmetric])
  next
    case False
    have "a = k * q + (r - 1)" using e by simp
    moreover have "0 \<le> r - 1" "r - 1 < k" using r False by simp_all
    ultimately have "a div k = q"
      by (rule int_div_pos_eq)
    with False show ?thesis by (simp add: q_def [symmetric] r_def [symmetric])
  qed
qed

lemma mod_shift:
  fixes y :: int
  shows "(y - 1968) mod 4 = y mod 4" and "(y - 1900) mod 100 = y mod 100"
    and "(y - 1600) mod 400 = y mod 400"
proof -
  have "(y + 4 * (- 492)) mod 4 = y mod 4" by (rule mod_mult_self2)
  then show "(y - 1968) mod 4 = y mod 4" by simp
  have "(y + 100 * (- 19)) mod 100 = y mod 100" by (rule mod_mult_self2)
  then show "(y - 1900) mod 100 = y mod 100" by simp
  have "(y + 400 * (- 4)) mod 400 = y mod 400" by (rule mod_mult_self2)
  then show "(y - 1600) mod 400 = y mod 400" by simp
qed

lemma leap_dvd:
  fixes y :: int
  shows "y mod 100 = 0 \<Longrightarrow> y mod 4 = 0" and "y mod 400 = 0 \<Longrightarrow> y mod 100 = 0"
proof -
  have a: "(4::int) dvd 100" and b: "(100::int) dvd 400" by simp_all
  show "y mod 100 = 0 \<Longrightarrow> y mod 4 = 0"
    using a by (auto simp: mod_eq_0_iff_dvd elim: dvd_trans)
  show "y mod 400 = 0 \<Longrightarrow> y mod 100 = 0"
    using b by (auto simp: mod_eq_0_iff_dvd elim: dvd_trans)
qed

lemma DayFromYear_Suc: "DayFromYear (y + 1) = DayFromYear y + DaysInYear y"
proof -
  have a: "(y + 1 - 1969) div 4 = (if y mod 4 = 0 then (y - 1969) div 4 + 1 else (y - 1969) div 4)"
    using div_step [of 4 "y - 1969"] mod_shift(1) [of y] by (simp add: algebra_simps)
  have b: "(y + 1 - 1901) div 100 = (if y mod 100 = 0 then (y - 1901) div 100 + 1 else (y - 1901) div 100)"
    using div_step [of 100 "y - 1901"] mod_shift(2) [of y] by (simp add: algebra_simps)
  have c: "(y + 1 - 1601) div 400 = (if y mod 400 = 0 then (y - 1601) div 400 + 1 else (y - 1601) div 400)"
    using div_step [of 400 "y - 1601"] mod_shift(3) [of y] by (simp add: algebra_simps)
  show ?thesis
    unfolding DayFromYear_def DaysInYear_def a b c
    using leap_dvd [of y] by (auto simp: algebra_simps)
qed

lemma YearFromDay_bracket:
  "DayFromYear (YearFromDay d) \<le> d \<and> d < DayFromYear (YearFromDay d + 1)"
proof -
  define q where "q = (400 * d) div 146097"
  define e where "e = 1970 + q"
  have q: "146097 * q \<le> 400 * d" "400 * d < 146097 * q + 146097"
    unfolding q_def by (rule div_bracket; simp)+
  define y1 where "y1 = e - 1"
  define y2 where "y2 = e + 2"
  have eq: "q = y1 - 1969" "q = y2 - 1972" by (simp_all add: e_def y1_def y2_def)
  have a: "DayFromYear (e - 1) \<le> d"
    unfolding y1_def [symmetric]
    using DayFromYear_bounds(1) [of y1] q eq(1) by linarith
  have b: "d < DayFromYear (e + 2)"
    unfolding y2_def [symmetric]
    using DayFromYear_bounds(2) [of y2] q eq(2) by linarith
  have b': "d < DayFromYear (e + 1 + 1)" using b by (simp add: add.commute)
  have Y: "YearFromDay d =
      (if DayFromYear (e + 1) \<le> d then e + 1 else if DayFromYear e \<le> d then e else e - 1)"
    by (simp add: YearFromDay_def Let_def q_def e_def)
  show ?thesis
  proof (cases "DayFromYear (e + 1) \<le> d")
    case True
    then show ?thesis using b' by (simp add: Y)
  next
    case False
    note F = this
    show ?thesis
    proof (cases "DayFromYear e \<le> d")
      case True
      then show ?thesis using F by (simp add: Y)
    next
      case False
      then show ?thesis using F a by (simp add: Y)
    qed
  qed
qed

lemma DaysInYear_cases: "DaysInYear y = 365 \<or> DaysInYear y = 366"
  by (simp add: DaysInYear_def)

lemma DaysInYear_pos: "365 \<le> DaysInYear y"
  by (simp add: DaysInYear_def)

lemma DayFromYear_mono_aux: "0 \<le> k \<Longrightarrow> DayFromYear y + 365 * k \<le> DayFromYear (y + k)"
proof (induction k rule: int_ge_induct)
  case base
  show ?case by simp
next
  case (step i)
  have "DayFromYear (y + i + 1) = DayFromYear (y + i) + DaysInYear (y + i)"
    by (rule DayFromYear_Suc)
  moreover have "365 \<le> DaysInYear (y + i)" by (rule DaysInYear_pos)
  ultimately have "DayFromYear (y + i) + 365 \<le> DayFromYear (y + (i + 1))"
    by (simp add: add.assoc)
  then show ?case using step.IH by (simp add: algebra_simps)
qed

lemma DayFromYear_strict_mono: "y < y' \<Longrightarrow> DayFromYear y < DayFromYear y'"
proof -
  assume a: "y < y'"
  define k where "k = y' - y"
  have k: "1 \<le> k" "y' = y + k" using a by (simp_all add: k_def)
  have "DayFromYear y + 365 * k \<le> DayFromYear (y + k)"
    using k(1) by (intro DayFromYear_mono_aux) simp
  then show ?thesis using k by simp
qed

lemma YearFromDay_unique:
  assumes "DayFromYear y \<le> d" "d < DayFromYear (y + 1)"
  shows "YearFromDay d = y"
proof (rule ccontr)
  assume n: "YearFromDay d \<noteq> y"
  have b: "DayFromYear (YearFromDay d) \<le> d" "d < DayFromYear (YearFromDay d + 1)"
    using YearFromDay_bracket [of d] by simp_all
  show False
  proof (cases "YearFromDay d < y")
    case True
    then have "YearFromDay d + 1 \<le> y" by simp
    then have "DayFromYear (YearFromDay d + 1) \<le> DayFromYear y"
      using DayFromYear_strict_mono [of "YearFromDay d + 1" y]
      by (cases "YearFromDay d + 1 = y") simp_all
    then show False using b(2) assms(1) by linarith
  next
    case False
    then have "y + 1 \<le> YearFromDay d" using n by simp
    then have "DayFromYear (y + 1) \<le> DayFromYear (YearFromDay d)"
      using DayFromYear_strict_mono [of "y + 1" "YearFromDay d"]
      by (cases "y + 1 = YearFromDay d") simp_all
    then show False using b(1) assms(2) by linarith
  qed
qed

lemma YearFromDay_largest:
  "DayFromYear (YearFromDay d) \<le> d \<and> (\<forall>y. DayFromYear y \<le> d \<longrightarrow> y \<le> YearFromDay d)"
proof -
  have b: "DayFromYear (YearFromDay d) \<le> d" "d < DayFromYear (YearFromDay d + 1)"
    using YearFromDay_bracket [of d] by simp_all
  have "y \<le> YearFromDay d" if "DayFromYear y \<le> d" for y
  proof (rule ccontr)
    assume "\<not> y \<le> YearFromDay d"
    then have "YearFromDay d + 1 \<le> y" by simp
    then have "DayFromYear (YearFromDay d + 1) \<le> DayFromYear y"
      using DayFromYear_strict_mono [of "YearFromDay d + 1" y]
      by (cases "YearFromDay d + 1 = y") simp_all
    then show False using b(2) that by linarith
  qed
  then show ?thesis using b(1) by blast
qed

lemma year_window:
  "DayFromYear (YearFromTime t) \<le> Day t" "Day t < DayFromYear (YearFromTime t) + 366"
  "DayFromYear (YearFromTime t + 1) \<le> DayFromYear (YearFromTime t) + 366"
  "DayFromYear (YearFromTime t) \<le> DayFromYear (YearFromTime t + 1)"
proof -
  have c: "DaysInYear (YearFromTime t) = 365 \<or> DaysInYear (YearFromTime t) = 366"
    by (rule DaysInYear_cases)
  have s: "DayFromYear (YearFromTime t + 1) = DayFromYear (YearFromTime t) + DaysInYear (YearFromTime t)"
    by (rule DayFromYear_Suc)
  have br: "DayFromYear (YearFromTime t) \<le> Day t" "Day t < DayFromYear (YearFromTime t + 1)"
    using YearFromDay_bracket [of "Day t"] by (simp_all add: YearFromTime_def)
  show "DayFromYear (YearFromTime t) \<le> Day t" by (rule br)
  show "Day t < DayFromYear (YearFromTime t) + 366" using br(2) s c by linarith
  show "DayFromYear (YearFromTime t + 1) \<le> DayFromYear (YearFromTime t) + 366"
    using s c by linarith
  show "DayFromYear (YearFromTime t) \<le> DayFromYear (YearFromTime t + 1)"
    using s c by linarith
qed

lemma DayWithinYear_bounds:
  "0 \<le> DayWithinYear t" "DayWithinYear t < DaysInYear (YearFromTime t)"
  using YearFromDay_bracket [of "Day t"] DayFromYear_Suc [of "YearFromDay (Day t)"]
  by (simp_all add: DayWithinYear_def YearFromTime_def)

lemma MonthFromTime_range: "0 \<le> MonthFromTime t \<and> MonthFromTime t \<le> 11"
  by (simp add: MonthFromTime_def Let_def)

lemma MakeDay_in_year:
  assumes "0 \<le> m" "m \<le> 11"
  shows "MakeDay y m dt =
    DayFromYear y + MonthStart m (if DaysInYear y = 366 then 1 else 0) + dt - 1"
proof -
  have "m div 12 = 0" "m mod 12 = m" using assms by simp_all
  then show ?thesis by (simp add: MakeDay_def Let_def)
qed

lemma Date_roundtrip:
  "DayFromYear (YearFromTime t) + MonthStart (MonthFromTime t) (InLeapYear t) + DateFromTime t - 1
     = Day t"
proof -
  have d: "Day t = DayFromYear (YearFromTime t) + DayWithinYear t"
    by (simp add: DayWithinYear_def)
  show ?thesis
    unfolding d using DayWithinYear_bounds [of t]
    by (simp add: MonthFromTime_def DateFromTime_def MonthStart_def Let_def)
qed

lemma MakeDay_of_time:
  "MakeDay (YearFromTime t) (MonthFromTime t) dt = Day t - DateFromTime t + dt"
  using Date_roundtrip [of t] MonthFromTime_range [of t]
  by (simp add: MakeDay_in_year InLeapYear_def)

lemma month_step:
  fixes m :: int
  shows "(m + 1) div 12 = (if m mod 12 = 11 then m div 12 + 1 else m div 12)"
    and "(m + 1) mod 12 = (if m mod 12 = 11 then 0 else m mod 12 + 1)"
proof -
  define q where "q = m div 12"
  define r where "r = m mod 12"
  have m: "m = 12 * q + r" by (simp add: q_def r_def)
  have r: "0 \<le> r" "r < 12" by (simp_all add: r_def)
  have A: "(m + 1) div 12 = (if r = 11 then q + 1 else q) \<and>
           (m + 1) mod 12 = (if r = 11 then 0 else r + 1)"
  proof (cases "r = 11")
    case True
    have e: "m + 1 = 12 * (q + 1) + 0" using m True by simp
    have "(m + 1) div 12 = q + 1" using e by (rule int_div_pos_eq) simp_all
    moreover have "(m + 1) mod 12 = 0" using e by (rule int_mod_pos_eq) simp_all
    ultimately show ?thesis using True by simp
  next
    case False
    have e: "m + 1 = 12 * q + (r + 1)" using m by simp
    have b: "0 \<le> r + 1" "r + 1 < 12" using r False by simp_all
    have "(m + 1) div 12 = q" using e b by (rule int_div_pos_eq)
    moreover have "(m + 1) mod 12 = r + 1" using e b by (rule int_mod_pos_eq)
    ultimately show ?thesis using False by simp
  qed
  show "(m + 1) div 12 = (if m mod 12 = 11 then m div 12 + 1 else m div 12)"
    using A by (simp add: q_def r_def)
  show "(m + 1) mod 12 = (if m mod 12 = 11 then 0 else m mod 12 + 1)"
    using A by (simp add: q_def r_def)
qed

lemma month_index_cases:
  fixes mn :: int
  assumes "0 \<le> mn" "mn \<le> 11"
  shows "mn = 0 \<or> mn = 1 \<or> mn = 2 \<or> mn = 3 \<or> mn = 4 \<or> mn = 5 \<or> mn = 6
     \<or> mn = 7 \<or> mn = 8 \<or> mn = 9 \<or> mn = 10 \<or> mn = 11"
  using assms by presburger

lemma MonthStart_step:
  assumes "0 \<le> mn" "mn < 11"
  shows "MonthStart (mn + 1) (if DaysInYear y = 366 then 1 else 0) =
         MonthStart mn (if DaysInYear y = 366 then 1 else 0) + DaysInMonth y mn"
  using month_index_cases [of mn] assms
  by (auto simp add: MonthStart_def DaysInMonth_def)

lemma MonthStart_bounds:
  "0 \<le> MonthStart mn (if c then 1 else 0)" "MonthStart mn (if c then 1 else 0) \<le> 335"
  by (cases c; simp add: MonthStart_def)+

lemma MakeDay_next_month:
  "MakeDay y (m + 1) dt = MakeDay y m dt + DaysInMonth (y + m div 12) (m mod 12)"
proof (cases "m mod 12 = 11")
  case True
  have "DayFromYear (y + m div 12 + 1) = DayFromYear (y + m div 12) + DaysInYear (y + m div 12)"
    by (rule DayFromYear_Suc)
  moreover have "DaysInYear (y + m div 12) = 365 \<or> DaysInYear (y + m div 12) = 366"
    by (rule DaysInYear_cases)
  ultimately show ?thesis
    using True
    by (auto simp add: MakeDay_def Let_def month_step MonthStart_def DaysInMonth_def add.assoc)
next
  case False
  have r: "0 \<le> m mod 12" "m mod 12 < 11"
    using False pos_mod_sign [of 12 m] pos_mod_bound [of 12 m] by linarith+
  show ?thesis
    using False MonthStart_step [OF r, of "y + m div 12"]
    by (simp add: MakeDay_def Let_def month_step)
qed

lemma MakeDay_year_window:
  "DayFromYear (y + m div 12) - 1 + dt \<le> MakeDay y m dt"
  "MakeDay y m dt \<le> DayFromYear (y + m div 12) + 334 + dt"
proof -
  define s where "s = MonthStart (m mod 12) (if DaysInYear (y + m div 12) = 366 then 1 else 0)"
  have s: "0 \<le> s" "s \<le> 335" unfolding s_def by (rule MonthStart_bounds)+
  have e: "MakeDay y m dt = DayFromYear (y + m div 12) + s + dt - 1"
    by (simp add: MakeDay_def Let_def s_def)
  show "DayFromYear (y + m div 12) - 1 + dt \<le> MakeDay y m dt"
    unfolding e using s by linarith
  show "MakeDay y m dt \<le> DayFromYear (y + m div 12) + 334 + dt"
    unfolding e using s by linarith
qed

lemma DaysInMonth_bounds: "28 \<le> DaysInMonth y mn \<and> DaysInMonth y mn \<le> 31"
  by (simp add: DaysInMonth_def)

lemma month_window:
  "MonthStart (MonthFromTime t) (InLeapYear t) \<le> DayWithinYear t"
  "DayWithinYear t < MonthStart (MonthFromTime t) (InLeapYear t)
      + DaysInMonth (YearFromTime t) (MonthFromTime t)"
proof -
  have c: "DaysInYear (YearFromTime t) = 365 \<or> DaysInYear (YearFromTime t) = 366"
    by (rule DaysInYear_cases)
  show "MonthStart (MonthFromTime t) (InLeapYear t) \<le> DayWithinYear t"
    using DayWithinYear_bounds [of t] c
    by (auto simp add: MonthFromTime_def MonthStart_def InLeapYear_def Let_def)
  show "DayWithinYear t < MonthStart (MonthFromTime t) (InLeapYear t)
      + DaysInMonth (YearFromTime t) (MonthFromTime t)"
    using DayWithinYear_bounds [of t] c
    by (auto simp add: MonthFromTime_def MonthStart_def InLeapYear_def DaysInMonth_def Let_def)
qed

lemma DateFromTime_bounds:
  "1 \<le> DateFromTime t" "DateFromTime t \<le> DaysInMonth (YearFromTime t) (MonthFromTime t)"
  using Date_roundtrip [of t] month_window [of t]
  by (simp_all add: DayWithinYear_def)

lemma month_fits_year:
  assumes "0 \<le> mn" "mn \<le> 11"
  shows "MonthStart mn (if DaysInYear y = 366 then 1 else 0) + DaysInMonth y mn \<le> DaysInYear y"
proof -
  have c: "DaysInYear y = 365 \<or> DaysInYear y = 366" by (rule DaysInYear_cases)
  from month_index_cases [OF assms] show ?thesis
    by (elim disjE) (use c in \<open>auto simp add: MonthStart_def DaysInMonth_def\<close>)
qed

lemma MonthFromTime_of_window:
  assumes W: "DayWithinYear t = MonthStart mn (InLeapYear t) + j"
    and j: "0 \<le> j" "j < DaysInMonth (YearFromTime t) mn"
    and mn: "0 \<le> mn" "mn \<le> 11"
  shows "MonthFromTime t = mn"
proof -
  define l where "l = InLeapYear t"
  define w where "w = DayWithinYear t"
  have l: "0 \<le> l" "l \<le> 1" by (simp_all add: l_def InLeapYear_def)
  have feb: "DaysInMonth (YearFromTime t) 1 = 28 + l"
    by (simp add: DaysInMonth_def l_def InLeapYear_def)
  have other: "k \<noteq> 1 \<Longrightarrow> DaysInMonth (YearFromTime t) k =
      (if k = 3 \<or> k = 5 \<or> k = 8 \<or> k = 10 then 30 else 31)" for k
    by (simp add: DaysInMonth_def)
  have M: "MonthFromTime t =
     (if w < 31 then 0 else if w < 59 + l then 1 else if w < 90 + l then 2
      else if w < 120 + l then 3 else if w < 151 + l then 4 else if w < 181 + l then 5
      else if w < 212 + l then 6 else if w < 243 + l then 7 else if w < 273 + l then 8
      else if w < 304 + l then 9 else if w < 334 + l then 10 else 11)"
    by (simp add: MonthFromTime_def Let_def w_def l_def)
  have W': "w = MonthStart mn l + j" using W by (simp add: w_def l_def)
  from month_index_cases [OF mn] show ?thesis
  proof (elim disjE)
    assume "mn = 0" then show ?thesis using W' j other [of 0] by (simp add: M MonthStart_def)
  next
    assume "mn = 1" then show ?thesis using W' j feb l by (simp add: M MonthStart_def)
  next
    assume "mn = 2" then show ?thesis using W' j other [of 2] l by (simp add: M MonthStart_def)
  next
    assume "mn = 3" then show ?thesis using W' j other [of 3] l by (simp add: M MonthStart_def)
  next
    assume "mn = 4" then show ?thesis using W' j other [of 4] l by (simp add: M MonthStart_def)
  next
    assume "mn = 5" then show ?thesis using W' j other [of 5] l by (simp add: M MonthStart_def)
  next
    assume "mn = 6" then show ?thesis using W' j other [of 6] l by (simp add: M MonthStart_def)
  next
    assume "mn = 7" then show ?thesis using W' j other [of 7] l by (simp add: M MonthStart_def)
  next
    assume "mn = 8" then show ?thesis using W' j other [of 8] l by (simp add: M MonthStart_def)
  next
    assume "mn = 9" then show ?thesis using W' j other [of 9] l by (simp add: M MonthStart_def)
  next
    assume "mn = 10" then show ?thesis using W' j other [of 10] l by (simp add: M MonthStart_def)
  next
    assume "mn = 11" then show ?thesis using W' j other [of 11] l by (simp add: M MonthStart_def)
  qed
qed

lemma MakeDay_spec:
  assumes "1 \<le> dt" "dt \<le> DaysInMonth (y + m div 12) (m mod 12)"
    and "Day t = MakeDay y m dt"
  shows "YearFromTime t = y + m div 12" and "MonthFromTime t = m mod 12"
    and "DateFromTime t = dt"
proof -
  define ym where "ym = y + m div 12"
  define mn where "mn = m mod 12"
  define l :: int where "l = (if DaysInYear ym = 366 then 1 else 0)"
  have mn: "0 \<le> mn" "mn \<le> 11"
    using pos_mod_sign [of 12 m] pos_mod_bound [of 12 m] by (simp_all add: mn_def)
  have d: "Day t = DayFromYear ym + MonthStart mn l + dt - 1"
    using assms(3) by (simp add: MakeDay_def Let_def ym_def mn_def l_def)
  have s0: "0 \<le> MonthStart mn l" unfolding l_def by (rule MonthStart_bounds)
  have fit: "MonthStart mn l + DaysInMonth ym mn \<le> DaysInYear ym"
    unfolding l_def by (rule month_fits_year [OF mn])
  have dt: "1 \<le> dt" "dt \<le> DaysInMonth ym mn" using assms(1,2) by (simp_all add: ym_def mn_def)
  have "DayFromYear ym \<le> Day t" using d s0 dt by linarith
  moreover have "Day t < DayFromYear (ym + 1)"
    using d fit dt DayFromYear_Suc [of ym] by linarith
  ultimately have Y: "YearFromTime t = ym"
    unfolding YearFromTime_def by (rule YearFromDay_unique)
  then show "YearFromTime t = y + m div 12" by (simp add: ym_def)
  have L: "InLeapYear t = l" by (simp add: InLeapYear_def Y l_def)
  have W: "DayWithinYear t = MonthStart mn (InLeapYear t) + (dt - 1)"
    by (simp add: DayWithinYear_def Y d L)
  have M: "MonthFromTime t = mn"
    using W _ _ mn
  proof (rule MonthFromTime_of_window)
    show "0 \<le> dt - 1" using dt by simp
    show "dt - 1 < DaysInMonth (YearFromTime t) mn" using dt by (simp add: Y)
  qed
  then show "MonthFromTime t = m mod 12" by (simp add: mn_def)
  show "DateFromTime t = dt"
    using Date_roundtrip [of t] by (simp add: Y L M d)
qed

lemma same_day_same_date:
  assumes "Day a = Day b"
  shows "YearFromTime a = YearFromTime b" and "MonthFromTime a = MonthFromTime b"
    and "DateFromTime a = DateFromTime b"
proof -
  show Y: "YearFromTime a = YearFromTime b" by (simp add: YearFromTime_def assms)
  have L: "InLeapYear a = InLeapYear b" by (simp add: InLeapYear_def Y)
  have W: "DayWithinYear a = DayWithinYear b" by (simp add: DayWithinYear_def Y assms)
  show M: "MonthFromTime a = MonthFromTime b" by (simp add: MonthFromTime_def L W)
  show "DateFromTime a = DateFromTime b" by (simp add: DateFromTime_def L W M)
qed

text \<open>
  \<open>monthEnd\<close> and \<open>nextMonthEnd\<close> are what their names say: the day \<open>monthEnd t\<close> is in the
  year and month of \<open>t\<close> and is the last of that month, and the day \<open>nextMonthEnd t\<close> is
  the last of the following month.
\<close>

lemma monthEnd_calendar:
  assumes "Day t' = monthEnd t"
  shows "calendarDate t' =
    (YearFromTime t, MonthFromTime t, DaysInMonth (YearFromTime t) (MonthFromTime t))"
proof -
  define y where "y = YearFromTime t"
  define m where "m = MonthFromTime t"
  define n where "n = DaysInMonth y m"
  have m: "m div 12 = 0" "m mod 12 = m"
    using MonthFromTime_range [of t] by (simp_all add: m_def)
  have n: "1 \<le> n" "n \<le> DaysInMonth (y + m div 12) (m mod 12)"
    using DaysInMonth_bounds [of y m] by (simp_all add: n_def m)
  have d: "Day t' = MakeDay y m n"
    using assms by (simp add: monthEnd_def MakeDay_of_time y_def m_def n_def)
  have "YearFromTime t' = y + m div 12" "MonthFromTime t' = m mod 12" "DateFromTime t' = n"
    using n d by (rule MakeDay_spec)+
  then show ?thesis
    by (simp add: calendarDate_def m y_def [symmetric] m_def [symmetric] n_def)
qed

lemma nextMonthEnd_calendar:
  assumes "Day t' = nextMonthEnd t"
  shows "calendarDate t' =
    (YearFromTime t + (MonthFromTime t + 1) div 12, (MonthFromTime t + 1) mod 12,
     DaysInMonth (YearFromTime t + (MonthFromTime t + 1) div 12) ((MonthFromTime t + 1) mod 12))"
proof -
  define y where "y = YearFromTime t"
  define m where "m = MonthFromTime t"
  define n where "n = DaysInMonth (y + (m + 1) div 12) ((m + 1) mod 12)"
  have m: "m div 12 = 0" "m mod 12 = m"
    using MonthFromTime_range [of t] by (simp_all add: m_def)
  have n: "1 \<le> n" "n \<le> DaysInMonth (y + (m + 1) div 12) ((m + 1) mod 12)"
    using DaysInMonth_bounds [of "y + (m + 1) div 12" "(m + 1) mod 12"] by (simp_all add: n_def)
  have "MakeDay y (m + 1) n = MakeDay y m n + DaysInMonth (y + m div 12) (m mod 12)"
    by (rule MakeDay_next_month)
  also have "MakeDay y m n = Day t - DateFromTime t + n"
    unfolding y_def m_def by (rule MakeDay_of_time)
  finally have "MakeDay y (m + 1) n = nextMonthEnd t"
    by (simp add: nextMonthEnd_def monthEnd_def m y_def [symmetric] m_def [symmetric] n_def)
  then have d: "Day t' = MakeDay y (m + 1) n" using assms by simp
  have "YearFromTime t' = y + (m + 1) div 12" "MonthFromTime t' = (m + 1) mod 12"
    "DateFromTime t' = n"
    using n d by (rule MakeDay_spec)+
  then show ?thesis
    by (simp add: calendarDate_def y_def [symmetric] m_def [symmetric] n_def)
qed

section \<open>Day numbers, clipping and month ends\<close>

lemma Day_bracket: "86400000 * Day t \<le> t" "t < 86400000 * Day t + 86400000"
  unfolding Day_def msPerDay_def by (rule div_bracket; simp)+

lemma Day_MakeDate:
  assumes "0 \<le> r" "r < 86400000"
  shows "Day (MakeDate d r) = d" and "TimeWithinDay (MakeDate d r) = r"
proof -
  have e: "MakeDate d r = 86400000 * d + r" by (simp add: MakeDate_def msPerDay_def)
  show "Day (MakeDate d r) = d"
    unfolding Day_def msPerDay_def using e assms by (rule int_div_pos_eq)
  show "TimeWithinDay (MakeDate d r) = r"
    unfolding TimeWithinDay_def msPerDay_def using e assms by (rule int_mod_pos_eq)
qed

lemma TimeWithinDay_bounds: "0 \<le> TimeWithinDay t" "TimeWithinDay t < 86400000"
  by (simp_all add: TimeWithinDay_def msPerDay_def)

lemma WeekDay_week_end:
  assumes "0 \<le> r" "r < 86400000"
  shows "WeekDay (MakeDate (D + (7 - (D + 4) mod 7)) r) = 0"
proof -
  have d: "Day (MakeDate (D + (7 - (D + 4) mod 7)) r) = D + (7 - (D + 4) mod 7)"
    using assms by (rule Day_MakeDate)
  define q where "q = (D + 4) div 7"
  have "D + 4 = 7 * q + (D + 4) mod 7" by (simp add: q_def)
  then have "D + (7 - (D + 4) mod 7) + 4 = 7 * q + 7" by linarith
  moreover have "(7 * q + 7) mod 7 = 0" by simp
  ultimately have "(D + (7 - (D + 4) mod 7) + 4) mod 7 = 0" by (simp only:)
  then show ?thesis by (simp add: WeekDay_def d)
qed

lemma TimeClip_Some: "\<bar>t\<bar> \<le> 8640000000000000 \<Longrightarrow> TimeClip t = Some t"
  by (simp add: TimeClip_def)

lemma month_end_this_year:
  assumes "MakeFullYear (YearFromTime t) = YearFromTime t"
  shows "MakeDay (MakeFullYear (YearFromTime t)) (MonthFromTime t + 1) 0 =
         Day t - DateFromTime t + DaysInMonth (YearFromTime t) (MonthFromTime t)"
proof -
  have m: "MonthFromTime t div 12 = 0" "MonthFromTime t mod 12 = MonthFromTime t"
    using MonthFromTime_range [of t] by simp_all
  show ?thesis
    unfolding assms MakeDay_next_month MakeDay_of_time m by simp
qed

lemma month_end_two_digit_year:
  assumes q: "MakeFullYear (YearFromTime t) \<noteq> YearFromTime t"
  shows "Day t < - 600000"
    and "- 26000 \<le> MakeDay (MakeFullYear (YearFromTime t)) (MonthFromTime t + 1) 0"
    and "MakeDay (MakeFullYear (YearFromTime t)) (MonthFromTime t + 1) 0 \<le> 12000"
proof -
  define Y where "Y = YearFromTime t"
  define M where "M = MonthFromTime t"
  have Y: "0 \<le> Y" "Y \<le> 99" and F: "MakeFullYear Y = 1900 + Y"
    using q by (auto simp add: MakeFullYear_def Y_def split: if_splits)
  define Y1 where "Y1 = Y + 1"
  have "Day t < DayFromYear Y1"
    using YearFromDay_bracket [of "Day t"] by (simp add: Y_def Y1_def YearFromTime_def)
  moreover have "400 * DayFromYear Y1 \<le> 146097 * Y1 - 287810501"
    by (rule DayFromYear_bounds)
  moreover have "Y1 \<le> 100" using Y by (simp add: Y1_def)
  ultimately show "Day t < - 600000" by linarith
  define q where "q = (M + 1) div 12"
  have M: "0 \<le> M" "M \<le> 11" using MonthFromTime_range [of t] by (simp_all add: M_def)
  have q: "q = 0 \<or> q = 1"
    using M by (auto simp add: q_def month_step)
  define ym where "ym = 1900 + Y + q"
  have ym: "1900 \<le> ym" "ym \<le> 2000" using Y q by (auto simp add: ym_def)
  have w: "DayFromYear ym - 1 \<le> MakeDay (1900 + Y) (M + 1) 0"
          "MakeDay (1900 + Y) (M + 1) 0 \<le> DayFromYear ym + 334"
    using MakeDay_year_window [of "1900 + Y" "M + 1" 0] by (simp_all add: ym_def q_def)
  have b: "400 * DayFromYear ym \<le> 146097 * ym - 287810501"
          "146097 * ym - 287811596 \<le> 400 * DayFromYear ym"
    by (rule DayFromYear_bounds)+
  show "- 26000 \<le> MakeDay (MakeFullYear (YearFromTime t)) (MonthFromTime t + 1) 0"
    unfolding Y_def [symmetric] M_def [symmetric] F using w b ym by linarith
  show "MakeDay (MakeFullYear (YearFromTime t)) (MonthFromTime t + 1) 0 \<le> 12000"
    unfolding Y_def [symmetric] M_def [symmetric] F using w b ym by linarith
qed

lemma month_end_window:
  "Day t \<le> MakeDay (MakeFullYear (YearFromTime t)) (MonthFromTime t + 1) 0"
  "MakeDay (MakeFullYear (YearFromTime t)) (MonthFromTime t + 1) 0 \<le> \<bar>Day t\<bar> + 30"
proof -
  define E where "E = MakeDay (MakeFullYear (YearFromTime t)) (MonthFromTime t + 1) 0"
  have "Day t \<le> E \<and> E \<le> \<bar>Day t\<bar> + 30"
  proof (cases "MakeFullYear (YearFromTime t) = YearFromTime t")
    case True
    have "E = Day t - DateFromTime t + DaysInMonth (YearFromTime t) (MonthFromTime t)"
      unfolding E_def by (rule month_end_this_year [OF True])
    moreover have "1 \<le> DateFromTime t"
      "DateFromTime t \<le> DaysInMonth (YearFromTime t) (MonthFromTime t)"
      by (rule DateFromTime_bounds)+
    moreover have "DaysInMonth (YearFromTime t) (MonthFromTime t) \<le> 31"
      using DaysInMonth_bounds by simp
    ultimately show ?thesis by linarith
  next
    case False
    show ?thesis
      using month_end_two_digit_year [OF False] unfolding E_def [symmetric] by linarith
  qed
  then show "Day t \<le> MakeDay (MakeFullYear (YearFromTime t)) (MonthFromTime t + 1) 0"
    and "MakeDay (MakeFullYear (YearFromTime t)) (MonthFromTime t + 1) 0 \<le> \<bar>Day t\<bar> + 30"
    by (simp_all add: E_def)
qed

lemma next_month_end_window:
  "MakeDay y (m + 1) 0 + 28 \<le> MakeDay y (m + 2) 0"
  "MakeDay y (m + 2) 0 \<le> MakeDay y (m + 1) 0 + 31"
proof -
  have "MakeDay y (m + 1 + 1) 0 =
      MakeDay y (m + 1) 0 + DaysInMonth (y + (m + 1) div 12) ((m + 1) mod 12)"
    by (rule MakeDay_next_month)
  moreover have "m + 1 + 1 = m + 2" by simp
  ultimately have e: "MakeDay y (m + 2) 0 =
      MakeDay y (m + 1) 0 + DaysInMonth (y + (m + 1) div 12) ((m + 1) mod 12)"
    by simp
  show "MakeDay y (m + 1) 0 + 28 \<le> MakeDay y (m + 2) 0"
    unfolding e using DaysInMonth_bounds [of "y + (m + 1) div 12" "(m + 1) mod 12"] by linarith
  show "MakeDay y (m + 2) 0 \<le> MakeDay y (m + 1) 0 + 31"
    unfolding e using DaysInMonth_bounds [of "y + (m + 1) div 12" "(m + 1) mod 12"] by linarith
qed

lemma timeMatch_table:
  assumes "new_Date_value h (date ev) = Some d"
  shows "timeMatch h now ''Today'' ev =
           (num_ge (Some d) (startOfDay h now) \<and> num_le (Some d) (endOfDay h now))"
    and "timeMatch h now ''This Week'' ev =
           (num_ge (Some d) (startOfDay h now) \<and> num_le (Some d) (endOfWeek h now))"
    and "timeMatch h now ''This Month'' ev =
           (num_ge (Some d) (startOfDay h now) \<and> num_le (Some d) (endOfMonth h now))"
    and "timeMatch h now ''Next Month'' ev =
           (num_gt (Some d) (endOfMonth h now) \<and> num_le (Some d) (endOfNextMonth h now))"
  using assms by (simp_all add: timeMatch_def Let_def)

lemma timeMatch_invalid_date:
  assumes "new_Date_value h (date ev) = None"
  shows "\<not> timeMatch h now timeFilter ev"
  using assms by (simp add: timeMatch_def Let_def num_ge_def num_gt_def)

section \<open>Strings and lists\<close>

lemma str_includes_sublist: "str_includes s f \<longleftrightarrow> sublist f s"
  by (induction s) (simp_all add: sublist_Cons_right)


lemma or_default_nonempty: "d \<noteq> [] \<Longrightarrow> or_default x d \<noteq> []"
  by (simp add: or_default_def split: option.splits)

lemma card_positions: "card {i. i < length xs \<and> xs ! i = e} = count_list xs e"
proof (induction xs rule: rev_induct)
  case Nil
  show ?case by simp
next
  case (snoc x xs)
  have split: "{i. i < length (xs @ [x]) \<and> (xs @ [x]) ! i = e} =
      {i. i < length xs \<and> xs ! i = e} \<union> (if x = e then {length xs} else {})"
    by (auto simp add: nth_append less_Suc_eq)
  have fin: "finite {i. i < length xs \<and> xs ! i = e}" by simp
  have disj: "length xs \<notin> {i. i < length xs \<and> xs ! i = e}" by simp
  show ?case
    unfolding split using snoc.IH fin disj by simp
qed

section \<open>Conversions between local time and UTC\<close>

lemma zone_regularD:
  assumes "zone_regular h"
  shows "\<bar>LocalTZA h t b\<bar> \<le> 86400000"
    and "LocalTZA h t b - LocalTZA h t' b' < 86400000"
    and "lt \<le> LocalTime h (UTC h lt)"
    and "LocalTime h (UTC h lt) < lt + 86400000"
proof -
  show 1: "\<bar>LocalTZA h t b\<bar> \<le> 86400000"
    using assms by (simp add: zone_regular_def msPerDay_def)
  show 2: "LocalTZA h t b - LocalTZA h t' b' < 86400000" for t b t' b'
    using assms by (simp add: zone_regular_def msPerDay_def)
  show "lt \<le> LocalTime h (UTC h lt)"
    using assms by (simp add: zone_regular_def)
  show "LocalTime h (UTC h lt) < lt + 86400000"
    using 2 [of "lt - LocalTZA h lt False" True lt False]
    by (simp add: LocalTime_def UTC_def)
qed

lemma UTC_window:
  assumes "zone_regular h"
  shows "lt - 86400000 \<le> UTC h lt" and "UTC h lt \<le> lt + 86400000"
  using zone_regularD(1) [OF assms, of lt False] by (simp_all add: UTC_def)

lemma roundtrip_day:
  assumes "zone_regular h"
  shows "Day (LocalTime h (UTC h (MakeDate d 0))) = d"
    and "TimeWithinDay (LocalTime h (UTC h (MakeDate d 0))) =
         LocalTime h (UTC h (MakeDate d 0)) - MakeDate d 0"
proof -
  define L where "L = LocalTime h (UTC h (MakeDate d 0))"
  define r where "r = L - 86400000 * d"
  have m: "MakeDate d 0 = 86400000 * d" by (simp add: MakeDate_def msPerDay_def)
  have "86400000 * d \<le> L" "L < 86400000 * d + 86400000"
    using zone_regularD(3,4) [OF assms, of "MakeDate d 0"] by (simp_all add: L_def m)
  then have r: "0 \<le> r" "r < 86400000" and e: "L = 86400000 * d + r"
    by (simp_all add: r_def)
  show "Day (LocalTime h (UTC h (MakeDate d 0))) = d"
    unfolding L_def [symmetric] Day_def msPerDay_def using e r by (rule int_div_pos_eq)
  have "TimeWithinDay L = r"
    unfolding TimeWithinDay_def msPerDay_def using e r by (rule int_mod_pos_eq)
  then show "TimeWithinDay (LocalTime h (UTC h (MakeDate d 0))) =
         LocalTime h (UTC h (MakeDate d 0)) - MakeDate d 0"
    by (simp add: L_def r_def m)
qed

lemma clip_day:
  assumes "zone_regular h"
    and "\<bar>86400000 * d\<bar> \<le> 8640000000000000 - 2 * 86400000"
    and "0 \<le> r" "r < 86400000"
  shows "TimeClip (UTC h (MakeDate d r)) = Some (UTC h (MakeDate d r))"
proof -
  have m: "MakeDate d r = 86400000 * d + r" by (simp add: MakeDate_def msPerDay_def)
  have "\<bar>UTC h (MakeDate d r)\<bar> \<le> 8640000000000000"
    using UTC_window [OF assms(1), of "MakeDate d r"] assms(2-4) unfolding m by linarith
  then show ?thesis by (rule TimeClip_Some)
qed

lemma clock_range_day:
  assumes "clock_range now" "zone_regular h"
  shows "\<bar>86400000 * Day (LocalTime h now)\<bar> \<le> 8640000000000000 - 998 * 86400000"
    and "\<bar>now\<bar> \<le> 8640000000000000"
proof -
  define D where "D = Day (LocalTime h now)"
  define z where "z = LocalTZA h now True"
  have b: "86400000 * D \<le> now + z" "now + z < 86400000 * D + 86400000"
    using Day_bracket [of "LocalTime h now"] by (simp_all add: D_def z_def LocalTime_def)
  have r: "\<bar>z\<bar> \<le> 86400000" "\<bar>now\<bar> \<le> 8639913600000000"
    using assms zone_regularD(1) [OF assms(2), of now True]
    by (simp_all add: clock_range_def msPerDay_def z_def)
  show "\<bar>86400000 * Day (LocalTime h now)\<bar> \<le> 8640000000000000 - 998 * 86400000"
    unfolding D_def [symmetric] using b r by linarith
  show "\<bar>now\<bar> \<le> 8640000000000000" using r by linarith
qed

lemma clip_near_day:
  assumes "clock_range t" "zone_regular h"
    and "Day (LocalTime h t) - 800 \<le> d" "d \<le> Day (LocalTime h t) + 800"
    and "0 \<le> r" "r < 86400000"
  shows "TimeClip (UTC h (MakeDate d r)) = Some (UTC h (MakeDate d r))"
proof -
  define D where "D = Day (LocalTime h t)"
  have rng: "\<bar>86400000 * D\<bar> \<le> 8640000000000000 - 998 * 86400000"
    using clock_range_day(1) [OF assms(1,2)] by (simp add: D_def)
  have d: "D - 800 \<le> d" "d \<le> D + 800" using assms(3,4) by (simp_all add: D_def)
  have "\<bar>86400000 * d\<bar> \<le> 8640000000000000 - 2 * 86400000"
    using rng d by linarith
  with assms(2) show ?thesis using assms(5,6) by (rule clip_day)
qed

lemma new_Date_number_clipped:
  assumes "TimeClip t = Some t"
  shows "new_Date_number (Some t) = Some t"
  using assms by (simp add: new_Date_number_def)

lemma setHours_eq:
  "setHours h (Some t) hr mi sc ms =
     TimeClip (UTC h (MakeDate (Day (LocalTime h t)) (MakeTime hr mi sc ms)))"
  by (simp add: setHours_def)

lemma local_time_existsD:
  assumes "local_time_exists h (MakeDate d 0)"
  shows "LocalTime h (UTC h (MakeDate d 0)) = MakeDate d 0"
    and "UTC h (MakeDate d 0) = 86400000 * d - LocalTZA h (UTC h (MakeDate d 0)) True"
proof -
  show e: "LocalTime h (UTC h (MakeDate d 0)) = MakeDate d 0"
    using assms by (simp add: local_time_exists_def)
  have "UTC h (MakeDate d 0) + LocalTZA h (UTC h (MakeDate d 0)) True = 86400000 * d"
    using e by (simp add: LocalTime_def MakeDate_def msPerDay_def mult.commute)
  then show "UTC h (MakeDate d 0) = 86400000 * d - LocalTZA h (UTC h (MakeDate d 0)) True"
    by linarith
qed

section \<open>The five boundary instants in closed form\<close>

lemma startOfDay_eq:
  assumes "clock_range now" "zone_regular h"
  shows "startOfDay h now = Some (UTC h (MakeDate (localDay h now) 0))"
proof -
  have n: "new_Date_number (Some now) = Some now"
    using clock_range_day(2) [OF assms] by (simp add: new_Date_number_def TimeClip_def)
  have "TimeClip (UTC h (MakeDate (Day (LocalTime h now)) 0)) =
      Some (UTC h (MakeDate (Day (LocalTime h now)) 0))"
    using assms by (rule clip_near_day) simp_all
  then show ?thesis
    by (simp add: startOfDay_def n setHours_eq MakeTime_def localDay_def)
qed

lemma endOfDay_eq:
  assumes "clock_range now" "zone_regular h"
  shows "endOfDay h now = Some (UTC h (MakeDate (localDay h now) 86399999))"
proof -
  have n: "new_Date_number (Some now) = Some now"
    using clock_range_day(2) [OF assms] by (simp add: new_Date_number_def TimeClip_def)
  have "TimeClip (UTC h (MakeDate (Day (LocalTime h now)) 86399999)) =
      Some (UTC h (MakeDate (Day (LocalTime h now)) 86399999))"
    using assms by (rule clip_near_day) simp_all
  then show ?thesis
    by (simp add: endOfDay_def n setHours_eq MakeTime_def localDay_def)
qed

lemma endOfWeek_eq:
  assumes "clock_range now" "zone_regular h"
  shows "endOfWeek h now =
    Some (UTC h (MakeDate (localDay h now + 7 - WeekDay (LocalTime h now))
                   (TimeWithinDay (LocalTime h (UTC h (MakeDate (localDay h now) 0))))))"
proof -
  define D where "D = Day (LocalTime h now)"
  define s where "s = UTC h (MakeDate D 0)"
  define L where "L = LocalTime h s"
  have sod: "startOfDay h now = Some s"
    using startOfDay_eq [OF assms] by (simp add: s_def D_def localDay_def)
  have "TimeClip s = Some s"
    unfolding s_def D_def using assms by (rule clip_near_day) simp_all
  then have n: "new_Date_number (Some s) = Some s" by (rule new_Date_number_clipped)
  have day: "Day L = D"
    unfolding L_def s_def by (rule roundtrip_day(1) [OF assms(2)])
  define w where "w = WeekDay (LocalTime h now)"
  have wd: "WeekDay L = w"
    by (simp add: WeekDay_def day D_def w_def)
  have w: "0 \<le> w" "w < 7" by (simp_all add: w_def WeekDay_def)
  have mk: "MakeDay (YearFromTime L) (MonthFromTime L) (DateFromTime L - w + 7) = D + 7 - w"
    by (simp add: MakeDay_of_time day)
  have arg: "num_add (num_sub (getDate h (Some s)) (getDay h (Some s))) (Some 7) =
      Some (DateFromTime L - w + 7)"
    by (simp add: getDate_def getDay_def num_add_def num_sub_def wd L_def [symmetric])
  have clip: "TimeClip (UTC h (MakeDate (D + 7 - w) (TimeWithinDay L))) =
      Some (UTC h (MakeDate (D + 7 - w) (TimeWithinDay L)))"
    using assms
  proof (rule clip_near_day)
    show "Day (LocalTime h now) - 800 \<le> D + 7 - w" using w by (simp add: D_def)
    show "D + 7 - w \<le> Day (LocalTime h now) + 800" using w by (simp add: D_def)
  qed (rule TimeWithinDay_bounds)+
  have "setDate h (Some s) (Some (DateFromTime L - w + 7)) =
      TimeClip (UTC h (MakeDate (D + 7 - w) (TimeWithinDay L)))"
    by (simp add: setDate_def Let_def L_def [symmetric] mk)
  then have "endOfWeek h now = Some (UTC h (MakeDate (D + 7 - w) (TimeWithinDay L)))"
    unfolding endOfWeek_def sod n arg clip .
  then show ?thesis
    by (simp add: D_def w_def L_def s_def localDay_def)
qed

lemma month_end_instant:
  assumes "zone_regular h"
    and "\<bar>86400000 * MakeDay (MakeFullYear y) m 0\<bar> \<le> 8640000000000000 - 2 * 86400000"
  shows "setHours h (new_Date_ymd h (Some y) (Some m) (Some 0)) 23 59 59 999 =
         Some (UTC h (MakeDate (MakeDay (MakeFullYear y) m 0) 86399999))"
proof -
  define E where "E = MakeDay (MakeFullYear y) m 0"
  have r: "\<bar>86400000 * E\<bar> \<le> 8640000000000000 - 2 * 86400000"
    using assms(2) by (simp add: E_def)
  have c: "TimeClip (UTC h (MakeDate E 0)) = Some (UTC h (MakeDate E 0))"
    using assms(1) r by (rule clip_day) simp_all
  have nd: "new_Date_ymd h (Some y) (Some m) (Some 0) = Some (UTC h (MakeDate E 0))"
    using c by (simp add: new_Date_ymd_def E_def MakeTime_def)
  have day: "Day (LocalTime h (UTC h (MakeDate E 0))) = E"
    by (rule roundtrip_day(1) [OF assms(1)])
  have "TimeClip (UTC h (MakeDate E 86399999)) = Some (UTC h (MakeDate E 86399999))"
    using assms(1) r by (rule clip_day) simp_all
  then show ?thesis
    unfolding nd E_def [symmetric] by (simp add: setHours_eq day MakeTime_def)
qed

lemma endOfMonth_eq:
  assumes "clock_range now" "zone_regular h"
  shows "endOfMonth h now = Some (UTC h (MakeDate (monthEndDay h now 1) 86399999))"
proof -
  define t where "t = LocalTime h now"
  define E where "E = monthEndDay h now 1"
  have E: "E = MakeDay (MakeFullYear (YearFromTime t)) (MonthFromTime t + 1) 0"
    by (simp add: E_def monthEndDay_def t_def)
  have w: "Day t \<le> E" "E \<le> \<bar>Day t\<bar> + 30"
    unfolding E by (rule month_end_window)+
  have rng: "\<bar>86400000 * Day t\<bar> \<le> 8640000000000000 - 998 * 86400000"
    using clock_range_day(1) [OF assms] by (simp add: t_def)
  have "\<bar>86400000 * E\<bar> \<le> 8640000000000000 - 2 * 86400000"
    using w rng by linarith
  with assms(2)
  have "setHours h (new_Date_ymd h (Some (YearFromTime t)) (Some (MonthFromTime t + 1)) (Some 0))
        23 59 59 999 = Some (UTC h (MakeDate E 86399999))"
    unfolding E by (rule month_end_instant)
  then show ?thesis
    by (simp add: endOfMonth_def getFullYear_def getMonth_def num_add_def t_def E_def)
qed

lemma endOfNextMonth_eq:
  assumes "clock_range now" "zone_regular h"
  shows "endOfNextMonth h now = Some (UTC h (MakeDate (monthEndDay h now 2) 86399999))"
proof -
  define t where "t = LocalTime h now"
  define E where "E = monthEndDay h now 1"
  define E2 where "E2 = monthEndDay h now 2"
  have E: "E = MakeDay (MakeFullYear (YearFromTime t)) (MonthFromTime t + 1) 0"
    by (simp add: E_def monthEndDay_def t_def)
  have E2: "E2 = MakeDay (MakeFullYear (YearFromTime t)) (MonthFromTime t + 2) 0"
    by (simp add: E2_def monthEndDay_def t_def)
  have w: "Day t \<le> E" "E \<le> \<bar>Day t\<bar> + 30"
    unfolding E by (rule month_end_window)+
  have w2: "E + 28 \<le> E2" "E2 \<le> E + 31"
    unfolding E E2 by (rule next_month_end_window)+
  have rng: "\<bar>86400000 * Day t\<bar> \<le> 8640000000000000 - 998 * 86400000"
    using clock_range_day(1) [OF assms] by (simp add: t_def)
  have "\<bar>86400000 * E2\<bar> \<le> 8640000000000000 - 2 * 86400000"
    using w w2 rng by linarith
  with assms(2)
  have "setHours h (new_Date_ymd h (Some (YearFromTime t)) (Some (MonthFromTime t + 2)) (Some 0))
        23 59 59 999 = Some (UTC h (MakeDate E2 86399999))"
    unfolding E2 by (rule month_end_instant)
  then show ?thesis
    by (simp add: endOfNextMonth_def getFullYear_def getMonth_def num_add_def t_def E2_def)
qed

lemma month_end_days:
  assumes "\<not> two_digit_year (YearFromTime (LocalTime h now))"
  shows "monthEndDay h now 1 = monthEnd (LocalTime h now)"
    and "monthEndDay h now 2 = nextMonthEnd (LocalTime h now)"
proof -
  define t where "t = LocalTime h now"
  have f: "MakeFullYear (YearFromTime t) = YearFromTime t"
    using assms by (auto simp add: two_digit_year_def MakeFullYear_def t_def)
  have 1: "MakeDay (MakeFullYear (YearFromTime t)) (MonthFromTime t + 1) 0 = monthEnd t"
    unfolding monthEnd_def by (rule month_end_this_year [OF f])
  have m: "(MonthFromTime t + 1) + 1 = MonthFromTime t + 2" by simp
  have "MakeDay (YearFromTime t) ((MonthFromTime t + 1) + 1) 0 =
      MakeDay (YearFromTime t) (MonthFromTime t + 1) 0
      + DaysInMonth (YearFromTime t + (MonthFromTime t + 1) div 12) ((MonthFromTime t + 1) mod 12)"
    by (rule MakeDay_next_month)
  then have 2: "MakeDay (MakeFullYear (YearFromTime t)) (MonthFromTime t + 2) 0 = nextMonthEnd t"
    using 1 unfolding f m by (simp add: nextMonthEnd_def)
  show "monthEndDay h now 1 = monthEnd (LocalTime h now)"
    using 1 by (simp add: monthEndDay_def t_def)
  show "monthEndDay h now 2 = nextMonthEnd (LocalTime h now)"
    using 2 by (simp add: monthEndDay_def t_def)
qed


lemma UTC_same_or_later_day:
  assumes "zone_regular h" and "d \<le> d'"
  shows "UTC h (MakeDate d 0) \<le> UTC h (MakeDate d' 86399999)"
proof -
  define z where "z = LocalTZA h (MakeDate d 0) False"
  define z' where "z' = LocalTZA h (MakeDate d' 86399999) False"
  have "z' - z < 86400000"
    unfolding z_def z'_def by (rule zone_regularD(2) [OF assms(1)])
  moreover have "86400000 * d \<le> 86400000 * d'" using assms(2) by simp
  ultimately have "86400000 * d + 0 - z \<le> 86400000 * d' + 86399999 - z'"
    by linarith
  then show ?thesis
    by (simp add: UTC_def MakeDate_def msPerDay_def z_def z'_def mult.commute)
qed





section \<open>The hosts of the examples\<close>

lemma zone_regular_fixed:
  assumes "\<bar>z\<bar> \<le> 86400000"
  shows "zone_regular (zone_host (fixed_zone z))"
  using assms
  by (simp add: zone_regular_def zone_host_def fixed_zone_def LocalTime_def UTC_def msPerDay_def)

lemma zone_regular_shifting:
  assumes "\<bar>a\<bar> \<le> 86400000" "\<bar>b\<bar> \<le> 86400000" "\<bar>a - b\<bar> < 86400000"
  shows "zone_regular (zone_host (shifting_zone T a b))"
proof -
  have 1: "\<bar>shifting_zone T a b t u\<bar> \<le> msPerDay" for t u
    using assms(1,2) by (simp add: shifting_zone_def msPerDay_def)
  have ab: "a - b < 86400000" "b - a < 86400000"
    using assms(3) by linarith+
  have 2: "shifting_zone T a b t u - shifting_zone T a b t' u' < msPerDay" for t u t' u'
    using ab by (simp add: shifting_zone_def msPerDay_def)
  have 3: "lt \<le> lt - shifting_zone T a b lt False
                 + shifting_zone T a b (lt - shifting_zone T a b lt False) True" for lt
    by (simp add: shifting_zone_def max_def)
  show ?thesis
    using 1 2 3 by (simp add: zone_regular_def zone_host_def LocalTime_def UTC_def)
qed



lemma example_host_regular: "zone_regular example_host"
  unfolding example_host_def by (rule zone_regular_fixed) simp

lemma denver_regular: "zone_regular denver_2025"
  unfolding denver_2025_def by (rule zone_regular_shifting) simp_all

lemma havana_regular: "zone_regular havana_2025"
  unfolding havana_2025_def by (rule zone_regular_shifting) simp_all

lemma santiago_regular: "zone_regular santiago_2025"
  unfolding santiago_2025_def by (rule zone_regular_shifting) simp_all

lemma example_clock_range: "clock_range example_now"
  by (simp add: clock_range_def example_now_def msPerDay_def)

lemma example_boundaries:
  "startOfDay example_host example_now = Some 1749967200000"
  "endOfDay example_host example_now = Some 1750053599999"
  "endOfWeek example_host example_now = Some 1750572000000"
  "endOfMonth example_host example_now = Some 1751349599999"
  "endOfNextMonth example_host example_now = Some 1754027999999"
  by code_simp+

section \<open>The reachable states of the application\<close>




section \<open>The claims\<close>

text \<open>
  Claim C1. For a clock reading in range, a regular zone and an event whose date parses
  to a valid time value d, the time predicate of both screens follows the boundary table:
  Today iff startOfDay \<le> d \<le> endOfDay, This
  Week iff startOfDay \<le> d \<le> endOfWeek, This Month iff startOfDay \<le> d \<le> endOfMonth, Next
  Month iff endOfMonth < d \<le> endOfNextMonth. The five instants are the ones of section
  4.1: startOfDay is 00:00:00.000 and endOfDay 23:59:59.999 local time of the local day of
  now; endOfWeek is the day 7 - dayOfWeek days later, at the local time of day of
  startOfDay; endOfMonth and endOfNextMonth are 23:59:59.999 local time of the last day of
  the month of now and of the month after it (lemmas \<open>monthEnd_calendar\<close> and
  \<open>nextMonthEnd_calendar\<close>), for a year that \<^verbatim>\<open>new Date(y, m, d)\<close> does not read as
  1900 + y. An event dated exactly endOfMonth matches This Month and not Next
  Month. Under the catch-all category the event is in the filtered list iff it is in the
  input and its time matches.
\<close>

theorem timeMatch_boundary_table:
  assumes "clock_range now" and "zone_regular h"
    and "new_Date_value h (date ev) = Some d"
  shows "\<exists>sod eod eow eom eonm.
     sod = UTC h (MakeDate (localDay h now) 0) \<and>
     eod = UTC h (MakeDate (localDay h now) 86399999) \<and>
     eow = UTC h (MakeDate (localDay h now + 7 - WeekDay (LocalTime h now))
                   (TimeWithinDay (LocalTime h sod))) \<and>
     (\<not> two_digit_year (YearFromTime (LocalTime h now)) \<longrightarrow>
        eom = UTC h (MakeDate (monthEnd (LocalTime h now)) 86399999) \<and>
        eonm = UTC h (MakeDate (nextMonthEnd (LocalTime h now)) 86399999)) \<and>
     startOfDay h now = Some sod \<and> endOfDay h now = Some eod \<and> endOfWeek h now = Some eow \<and>
     endOfMonth h now = Some eom \<and> endOfNextMonth h now = Some eonm \<and>
     (timeMatch h now ''Today'' ev \<longleftrightarrow> sod \<le> d \<and> d \<le> eod) \<and>
     (timeMatch h now ''This Week'' ev \<longleftrightarrow> sod \<le> d \<and> d \<le> eow) \<and>
     (timeMatch h now ''This Month'' ev \<longleftrightarrow> sod \<le> d \<and> d \<le> eom) \<and>
     (timeMatch h now ''Next Month'' ev \<longleftrightarrow> eom < d \<and> d \<le> eonm) \<and>
     (d = eom \<longrightarrow> timeMatch h now ''This Month'' ev \<and> \<not> timeMatch h now ''Next Month'' ev) \<and>
     (\<forall>events timeFilter.
        (ev \<in> set (SportsScreen_filteredEvents h now events timeFilter ''Sports'') \<longleftrightarrow>
           ev \<in> set events \<and> timeMatch h now timeFilter ev) \<and>
        (ev \<in> set (MusicScreen_filteredEvents h now events timeFilter ''Music'') \<longleftrightarrow>
           ev \<in> set events \<and> timeMatch h now timeFilter ev))"
proof -
  define sod where "sod = UTC h (MakeDate (localDay h now) 0)"
  define eod where "eod = UTC h (MakeDate (localDay h now) 86399999)"
  define eow where "eow = UTC h (MakeDate (localDay h now + 7 - WeekDay (LocalTime h now))
                   (TimeWithinDay (LocalTime h sod)))"
  define eom where "eom = UTC h (MakeDate (monthEndDay h now 1) 86399999)"
  define eonm where "eonm = UTC h (MakeDate (monthEndDay h now 2) 86399999)"
  have b: "startOfDay h now = Some sod" "endOfDay h now = Some eod" "endOfWeek h now = Some eow"
    "endOfMonth h now = Some eom" "endOfNextMonth h now = Some eonm"
    unfolding sod_def eod_def eow_def eom_def eonm_def
    by (rule startOfDay_eq endOfDay_eq endOfWeek_eq endOfMonth_eq endOfNextMonth_eq; rule assms)+
  have pin: "\<not> two_digit_year (YearFromTime (LocalTime h now)) \<longrightarrow>
        eom = UTC h (MakeDate (monthEnd (LocalTime h now)) 86399999) \<and>
        eonm = UTC h (MakeDate (nextMonthEnd (LocalTime h now)) 86399999)"
    using month_end_days [of h now] by (simp add: eom_def eonm_def)
  have "localDay h now \<le> monthEndDay h now 1"
    using month_end_window(1) [of "LocalTime h now"] by (simp add: localDay_def monthEndDay_def)
  with assms(2) have le: "sod \<le> eom"
    unfolding sod_def eom_def by (rule UTC_same_or_later_day)
  have t: "timeMatch h now ''Today'' ev \<longleftrightarrow> sod \<le> d \<and> d \<le> eod"
    "timeMatch h now ''This Week'' ev \<longleftrightarrow> sod \<le> d \<and> d \<le> eow"
    "timeMatch h now ''This Month'' ev \<longleftrightarrow> sod \<le> d \<and> d \<le> eom"
    "timeMatch h now ''Next Month'' ev \<longleftrightarrow> eom < d \<and> d \<le> eonm"
    unfolding timeMatch_table [OF assms(3)] b
    by (simp_all add: num_ge_def num_le_def num_gt_def)
  have e: "d = eom \<longrightarrow> timeMatch h now ''This Month'' ev \<and> \<not> timeMatch h now ''Next Month'' ev"
    unfolding t using le by auto
  have f: "\<forall>events timeFilter.
        (ev \<in> set (SportsScreen_filteredEvents h now events timeFilter ''Sports'') \<longleftrightarrow>
           ev \<in> set events \<and> timeMatch h now timeFilter ev) \<and>
        (ev \<in> set (MusicScreen_filteredEvents h now events timeFilter ''Music'') \<longleftrightarrow>
           ev \<in> set events \<and> timeMatch h now timeFilter ev)"
    by (simp add: SportsScreen_filteredEvents_def MusicScreen_filteredEvents_def
        SportsScreen_categoryMatch_def MusicScreen_categoryMatch_def)
  show ?thesis
    apply (rule exI [of _ sod])
    apply (rule exI [of _ eod])
    apply (rule exI [of _ eow])
    apply (rule exI [of _ eom])
    apply (rule exI [of _ eonm])
    using sod_def eod_def eow_def pin b t e f by (intro conjI) assumption+
qed

theorem timeMatch_boundary_table_witness:
  "clock_range example_now \<and> zone_regular example_host \<and>
   iso_Date_parse (LocalTZA example_host) ''2025-06-15T12:00:00'' = Some example_now \<and>
   startOfDay example_host example_now = Some 1749967200000 \<and>
   endOfDay example_host example_now = Some 1750053599999 \<and>
   endOfMonth example_host example_now = Some 1751349599999 \<and>
   toISOString (endOfMonth example_host example_now) = Inr ''2025-07-01T05:59:59.999Z'' \<and>
   timeMatch example_host example_now ''Today''
     (example_event None (Some ''2025-06-15T20:00:00'')) \<and>
   \<not> timeMatch example_host example_now ''Next Month''
     (example_event None (Some ''2025-06-15T20:00:00'')) \<and>
   example_event None (Some ''2025-06-15T20:00:00'')
     \<in> set (SportsScreen_filteredEvents example_host example_now
            [example_event None (Some ''2025-06-15T20:00:00'')] ''Today'' ''Sports'') \<and>
   example_event None (Some ''2025-06-15T20:00:00'')
     \<notin> set (MusicScreen_filteredEvents example_host example_now
            [example_event None (Some ''2025-06-15T20:00:00'')] ''Next Month'' ''Music'') \<and>
   timeMatch example_host example_now ''Today''
     (example_event None (Some ''2025-06-15T09:30:00'')) \<and>
   timeMatch example_host example_now ''This Month''
     (example_event None (Some ''2025-06-30T23:59:59.999'')) \<and>
   \<not> timeMatch example_host example_now ''Next Month''
     (example_event None (Some ''2025-06-30T23:59:59.999'')) \<and>
   zone_regular denver_2025 \<and>
   startOfDay denver_2025 1741543200000 = Some 1741503600000 \<and>
   \<not> timeMatch denver_2025 1741543200000 ''Today''
     (example_event None (Some ''2025-03-09T06:30:00Z'')) \<and>
   timeMatch denver_2025 1741543200000 ''Today''
     (example_event None (Some ''2025-03-09T07:30:00Z''))"
proof -
  have n: "iso_Date_parse (LocalTZA example_host) ''2025-06-15T12:00:00'' = Some example_now"
    by code_simp
  have iso: "toISOString (Some 1751349599999) = Inr ''2025-07-01T05:59:59.999Z''"
    by code_simp
  have pa: "new_Date_value example_host (date (example_event None (Some ''2025-06-15T20:00:00'')))
     = Some 1750039200000"
    by code_simp
  have pb: "new_Date_value example_host (date (example_event None (Some ''2025-06-15T09:30:00'')))
     = Some 1750001400000"
    by code_simp
  have pc: "new_Date_value example_host (date (example_event None (Some ''2025-06-30T23:59:59.999'')))
     = Some 1751349599999"
    by code_simp
  have pd: "new_Date_value denver_2025 (date (example_event None (Some ''2025-03-09T06:30:00Z'')))
     = Some 1741501800000"
    by code_simp
  have pe: "new_Date_value denver_2025 (date (example_event None (Some ''2025-03-09T07:30:00Z'')))
     = Some 1741505400000"
    by code_simp
  have rd: "clock_range 1741543200000"
    by (simp add: clock_range_def msPerDay_def)
  have sd: "startOfDay denver_2025 1741543200000 = Some 1741503600000"
    and ed: "endOfDay denver_2025 1741543200000 = Some 1741586399999"
    by code_simp+
  note B = example_boundaries
  from timeMatch_boundary_table [OF example_clock_range example_host_regular pa]
  obtain sod eod eom eonm where
    "startOfDay example_host example_now = Some sod"
    "endOfDay example_host example_now = Some eod"
    "endOfMonth example_host example_now = Some eom"
    "endOfNextMonth example_host example_now = Some eonm"
    "timeMatch example_host example_now ''Today''
       (example_event None (Some ''2025-06-15T20:00:00'')) \<longleftrightarrow>
       sod \<le> 1750039200000 \<and> 1750039200000 \<le> eod"
    "timeMatch example_host example_now ''Next Month''
       (example_event None (Some ''2025-06-15T20:00:00'')) \<longleftrightarrow>
       eom < 1750039200000 \<and> 1750039200000 \<le> eonm"
    "\<forall>events timeFilter.
        (example_event None (Some ''2025-06-15T20:00:00'')
           \<in> set (SportsScreen_filteredEvents example_host example_now events timeFilter ''Sports'') \<longleftrightarrow>
           example_event None (Some ''2025-06-15T20:00:00'') \<in> set events \<and>
           timeMatch example_host example_now timeFilter
             (example_event None (Some ''2025-06-15T20:00:00''))) \<and>
        (example_event None (Some ''2025-06-15T20:00:00'')
           \<in> set (MusicScreen_filteredEvents example_host example_now events timeFilter ''Music'') \<longleftrightarrow>
           example_event None (Some ''2025-06-15T20:00:00'') \<in> set events \<and>
           timeMatch example_host example_now timeFilter
             (example_event None (Some ''2025-06-15T20:00:00'')))"
    by (elim exE conjE) (rule that; assumption)
  then have a1: "timeMatch example_host example_now ''Today''
      (example_event None (Some ''2025-06-15T20:00:00''))"
    and a2: "\<not> timeMatch example_host example_now ''Next Month''
      (example_event None (Some ''2025-06-15T20:00:00''))"
    and f: "\<And>events timeFilter.
        (example_event None (Some ''2025-06-15T20:00:00'')
           \<in> set (SportsScreen_filteredEvents example_host example_now events timeFilter ''Sports'') \<longleftrightarrow>
           example_event None (Some ''2025-06-15T20:00:00'') \<in> set events \<and>
           timeMatch example_host example_now timeFilter
             (example_event None (Some ''2025-06-15T20:00:00'')))"
        "\<And>events timeFilter.
        (example_event None (Some ''2025-06-15T20:00:00'')
           \<in> set (MusicScreen_filteredEvents example_host example_now events timeFilter ''Music'') \<longleftrightarrow>
           example_event None (Some ''2025-06-15T20:00:00'') \<in> set events \<and>
           timeMatch example_host example_now timeFilter
             (example_event None (Some ''2025-06-15T20:00:00'')))"
    using B by simp_all
  have a3: "example_event None (Some ''2025-06-15T20:00:00'')
     \<in> set (SportsScreen_filteredEvents example_host example_now
            [example_event None (Some ''2025-06-15T20:00:00'')] ''Today'' ''Sports'')"
    unfolding f using a1 by simp
  have a4: "example_event None (Some ''2025-06-15T20:00:00'')
     \<notin> set (MusicScreen_filteredEvents example_host example_now
            [example_event None (Some ''2025-06-15T20:00:00'')] ''Next Month'' ''Music'')"
    unfolding f using a2 by simp
  from timeMatch_boundary_table [OF example_clock_range example_host_regular pb]
  obtain sod eod where
    "startOfDay example_host example_now = Some sod"
    "endOfDay example_host example_now = Some eod"
    "timeMatch example_host example_now ''Today''
       (example_event None (Some ''2025-06-15T09:30:00'')) \<longleftrightarrow>
       sod \<le> 1750001400000 \<and> 1750001400000 \<le> eod"
    by (elim exE conjE) (rule that; assumption)
  then have b1: "timeMatch example_host example_now ''Today''
      (example_event None (Some ''2025-06-15T09:30:00''))"
    using B by simp
  from timeMatch_boundary_table [OF example_clock_range example_host_regular pc]
  obtain eom where
    "endOfMonth example_host example_now = Some eom"
    "1751349599999 = eom \<longrightarrow>
       timeMatch example_host example_now ''This Month''
         (example_event None (Some ''2025-06-30T23:59:59.999'')) \<and>
       \<not> timeMatch example_host example_now ''Next Month''
         (example_event None (Some ''2025-06-30T23:59:59.999''))"
    by (elim exE conjE) (rule that; assumption)
  then have c1: "timeMatch example_host example_now ''This Month''
         (example_event None (Some ''2025-06-30T23:59:59.999''))"
    and c2: "\<not> timeMatch example_host example_now ''Next Month''
         (example_event None (Some ''2025-06-30T23:59:59.999''))"
    using B by simp_all
  from timeMatch_boundary_table [OF rd denver_regular pd]
  obtain sod eod where
    "startOfDay denver_2025 1741543200000 = Some sod"
    "endOfDay denver_2025 1741543200000 = Some eod"
    "timeMatch denver_2025 1741543200000 ''Today''
       (example_event None (Some ''2025-03-09T06:30:00Z'')) \<longleftrightarrow>
       sod \<le> 1741501800000 \<and> 1741501800000 \<le> eod"
    by (elim exE conjE) (rule that; assumption)
  then have d1: "\<not> timeMatch denver_2025 1741543200000 ''Today''
       (example_event None (Some ''2025-03-09T06:30:00Z''))"
    using sd ed by simp
  from timeMatch_boundary_table [OF rd denver_regular pe]
  obtain sod eod where
    "startOfDay denver_2025 1741543200000 = Some sod"
    "endOfDay denver_2025 1741543200000 = Some eod"
    "timeMatch denver_2025 1741543200000 ''Today''
       (example_event None (Some ''2025-03-09T07:30:00Z'')) \<longleftrightarrow>
       sod \<le> 1741505400000 \<and> 1741505400000 \<le> eod"
    by (elim exE conjE) (rule that; assumption)
  then have e1: "timeMatch denver_2025 1741543200000 ''Today''
       (example_event None (Some ''2025-03-09T07:30:00Z''))"
    using sd ed by simp
  have i: "toISOString (endOfMonth example_host example_now) = Inr ''2025-07-01T05:59:59.999Z''"
    unfolding B by (rule iso)
  show ?thesis
    using example_clock_range example_host_regular n B(1,2,4) i a1 a2 a3 a4 b1 c1 c2
      denver_regular sd d1 e1
    by (intro conjI) assumption+
qed



text \<open>
  Claim C3, as stated, fails on a host whose zone has a transition at a midnight or
  within the week. In Havana the clocks go from 00:00 to 01:00 on Sunday 9 March 2025: for
  now = Wednesday 5 March, 12:00 local time, endOfWeek is 2025-03-09T05:00:00Z, which is
  01:00:00.000 local time of that Sunday, not 00:00:00.000. In Denver the clocks go from
  02:00 to 03:00 on the same Sunday: for now = 12:00 local time of that day, endOfWeek is
  the midnight of the following Sunday, seven calendar days after startOfDay, and yet not
  seven times 24 hours after it but an hour less.
\<close>

theorem endOfWeek_zone_transition:
  "iso_Date_parse (LocalTZA havana_2025) ''2025-03-05T12:00:00'' = Some 1741194000000 \<and>
   startOfDay havana_2025 1741194000000 = Some 1741150800000 \<and>
   getDay havana_2025 (Some 1741150800000) = Some 3 \<and>
   endOfWeek havana_2025 1741194000000 = Some 1741496400000 \<and>
   toISOString (Some 1741496400000) = Inr ''2025-03-09T05:00:00.000Z'' \<and>
   getDay havana_2025 (Some 1741496400000) = Some 0 \<and>
   HourFromTime (LocalTime havana_2025 1741496400000) = 1 \<and>
   TimeWithinDay (LocalTime havana_2025 1741496400000) \<noteq> 0 \<and>
   iso_Date_parse (LocalTZA denver_2025) ''2025-03-09T12:00:00'' = Some 1741543200000 \<and>
   startOfDay denver_2025 1741543200000 = Some 1741503600000 \<and>
   getDay denver_2025 (Some 1741503600000) = Some 0 \<and>
   endOfWeek denver_2025 1741543200000 = Some 1742104800000 \<and>
   TimeWithinDay (LocalTime denver_2025 1742104800000) = 0 \<and>
   1742104800000 = 1741503600000 + 7 * msPerDay - 3600000"
proof -
  have 1: "iso_Date_parse (LocalTZA havana_2025) ''2025-03-05T12:00:00'' = Some 1741194000000"
    by code_simp
  have 2: "startOfDay havana_2025 1741194000000 = Some 1741150800000"
    by code_simp
  have 3: "getDay havana_2025 (Some 1741150800000) = Some 3"
    by code_simp
  have 4: "endOfWeek havana_2025 1741194000000 = Some 1741496400000"
    by code_simp
  have 5: "toISOString (Some 1741496400000) = Inr ''2025-03-09T05:00:00.000Z''"
    by code_simp
  have 6: "getDay havana_2025 (Some 1741496400000) = Some 0"
    by code_simp
  have 7: "HourFromTime (LocalTime havana_2025 1741496400000) = 1"
    by code_simp
  have 8: "TimeWithinDay (LocalTime havana_2025 1741496400000) \<noteq> 0"
    by code_simp
  have 9: "iso_Date_parse (LocalTZA denver_2025) ''2025-03-09T12:00:00'' = Some 1741543200000"
    by code_simp
  have 10: "startOfDay denver_2025 1741543200000 = Some 1741503600000"
    by code_simp
  have 11: "getDay denver_2025 (Some 1741503600000) = Some 0"
    by code_simp
  have 12: "endOfWeek denver_2025 1741543200000 = Some 1742104800000"
    by code_simp
  have 13: "TimeWithinDay (LocalTime denver_2025 1742104800000) = 0"
    by code_simp
  have 14: "1742104800000 = 1741503600000 + 7 * msPerDay - 3600000"
    by (simp add: msPerDay_def)
  show ?thesis
    using 1 2 3 4 5 6 7 8 9 10 11 12 13 14 by (intro conjI) assumption+
qed

text \<open>
  Claim C3, amended. endOfWeek is the local time of day of startOfDay on the calendar day
  7 - w days after the local day of now, where w, from 0 (Sunday) to 6 (Saturday), is the
  day of the week of startOfDay, and of now; that day is a Sunday, and when now falls on
  a Sunday it is the Sunday seven calendar days later. When no zone transition skips the
  local midnight of either day, startOfDay and endOfWeek are 00:00:00.000 local time of
  their days, and endOfWeek is startOfDay plus 7 - w times 24 hours, less the change of
  the zone offset between the two instants (so exactly that many days on a host whose
  offset is the same at both).
\<close>

theorem endOfWeek_next_sunday:
  assumes "clock_range now" and "zone_regular h"
  shows "\<exists>sod eow w.
     startOfDay h now = Some sod \<and> endOfWeek h now = Some eow \<and>
     getDay h (Some sod) = Some w \<and> getDay h (Some now) = Some w \<and> 0 \<le> w \<and> w \<le> 6 \<and>
     eow = UTC h (MakeDate (localDay h now + (7 - w)) (TimeWithinDay (LocalTime h sod))) \<and>
     WeekDay (MakeDate (localDay h now + (7 - w)) (TimeWithinDay (LocalTime h sod))) = 0 \<and>
     (w = 0 \<longrightarrow>
        eow = UTC h (MakeDate (localDay h now + 7) (TimeWithinDay (LocalTime h sod)))) \<and>
     (local_time_exists h (MakeDate (localDay h now) 0) \<and>
      local_time_exists h (MakeDate (localDay h now + (7 - w)) 0) \<longrightarrow>
        TimeWithinDay (LocalTime h sod) = 0 \<and>
        localDay h eow = localDay h sod + (7 - w) \<and>
        TimeWithinDay (LocalTime h eow) = 0 \<and>
        WeekDay (LocalTime h eow) = 0 \<and>
        eow = sod + (7 - w) * msPerDay - (LocalTZA h eow True - LocalTZA h sod True))"
proof -
  define D where "D = localDay h now"
  define w where "w = WeekDay (LocalTime h now)"
  define sod where "sod = UTC h (MakeDate D 0)"
  define r where "r = TimeWithinDay (LocalTime h sod)"
  define eow where "eow = UTC h (MakeDate (D + (7 - w)) r)"
  have w: "0 \<le> w" "w \<le> 6" and wD: "w = (D + 4) mod 7"
    by (simp_all add: w_def WeekDay_def D_def localDay_def)
  have r: "0 \<le> r" "r < 86400000" unfolding r_def by (rule TimeWithinDay_bounds)+
  have c1: "startOfDay h now = Some sod"
    using startOfDay_eq [OF assms] by (simp add: sod_def D_def)
  have c2: "endOfWeek h now = Some eow"
    using endOfWeek_eq [OF assms] by (simp add: eow_def sod_def D_def w_def r_def algebra_simps)
  have day: "Day (LocalTime h sod) = D"
    unfolding sod_def by (rule roundtrip_day(1) [OF assms(2)])
  have c3: "getDay h (Some sod) = Some w"
    by (simp add: getDay_def WeekDay_def day wD)
  have c4: "getDay h (Some now) = Some w"
    by (simp add: getDay_def w_def)
  have c5: "WeekDay (MakeDate (D + (7 - w)) r) = 0"
    unfolding wD using r by (rule WeekDay_week_end)
  have c6: "w = 0 \<longrightarrow> eow = UTC h (MakeDate (D + 7) r)"
    by (simp add: eow_def)
  have c7: "TimeWithinDay (LocalTime h sod) = 0 \<and>
        localDay h eow = localDay h sod + (7 - w) \<and>
        TimeWithinDay (LocalTime h eow) = 0 \<and>
        WeekDay (LocalTime h eow) = 0 \<and>
        eow = sod + (7 - w) * msPerDay - (LocalTZA h eow True - LocalTZA h sod True)"
    if x: "local_time_exists h (MakeDate D 0)" "local_time_exists h (MakeDate (D + (7 - w)) 0)"
  proof -
    have Ls: "LocalTime h sod = MakeDate D 0"
      and s: "sod = 86400000 * D - LocalTZA h sod True"
      using local_time_existsD [OF x(1)] by (simp_all add: sod_def)
    have r0: "r = 0"
      unfolding r_def Ls by (rule Day_MakeDate) simp_all
    have Le: "LocalTime h eow = MakeDate (D + (7 - w)) 0"
      and e: "eow = 86400000 * (D + (7 - w)) - LocalTZA h eow True"
      using local_time_existsD [OF x(2)] by (simp_all add: eow_def r0)
    have 1: "TimeWithinDay (LocalTime h sod) = 0" using r0 by (simp add: r_def)
    have "Day (LocalTime h eow) = D + (7 - w)"
      unfolding Le by (rule Day_MakeDate) simp_all
    then have 2: "localDay h eow = localDay h sod + (7 - w)"
      by (simp add: localDay_def day)
    have 3: "TimeWithinDay (LocalTime h eow) = 0"
      unfolding Le by (rule Day_MakeDate) simp_all
    have 4: "WeekDay (LocalTime h eow) = 0"
      unfolding Le using c5 by (simp add: r0)
    have "eow = sod + 86400000 * (7 - w) - (LocalTZA h eow True - LocalTZA h sod True)"
      using s e by (simp add: algebra_simps)
    then have 5: "eow = sod + (7 - w) * msPerDay - (LocalTZA h eow True - LocalTZA h sod True)"
      by (simp add: msPerDay_def mult.commute)
    show ?thesis using 1 2 3 4 5 by (intro conjI) assumption+
  qed
  have c8: "local_time_exists h (MakeDate D 0) \<and>
      local_time_exists h (MakeDate (D + (7 - w)) 0) \<longrightarrow>
        r = 0 \<and>
        localDay h eow = localDay h sod + (7 - w) \<and>
        TimeWithinDay (LocalTime h eow) = 0 \<and>
        WeekDay (LocalTime h eow) = 0 \<and>
        eow = sod + (7 - w) * msPerDay - (LocalTZA h eow True - LocalTZA h sod True)"
  proof (intro impI, elim conjE)
    assume "local_time_exists h (MakeDate D 0)" "local_time_exists h (MakeDate (D + (7 - w)) 0)"
    then show "r = 0 \<and>
        localDay h eow = localDay h sod + (7 - w) \<and>
        TimeWithinDay (LocalTime h eow) = 0 \<and>
        WeekDay (LocalTime h eow) = 0 \<and>
        eow = sod + (7 - w) * msPerDay - (LocalTZA h eow True - LocalTZA h sod True)"
      unfolding r_def by (rule c7)
  qed
  show ?thesis
    apply (rule exI [of _ sod])
    apply (rule exI [of _ eow])
    apply (rule exI [of _ w])
    unfolding D_def [symmetric] r_def [symmetric]
    using c1 c2 c3 c4 w c5 c6 c8 eow_def by (intro conjI) assumption+
qed

theorem endOfWeek_next_sunday_witness:
  "clock_range example_now \<and> zone_regular example_host \<and> zone_regular denver_2025 \<and>
   WeekDay 0 = 4 \<and>
   toISOString (Some example_now) = Inr ''2025-06-15T18:00:00.000Z'' \<and>
   getDay example_host (Some example_now) = Some 0 \<and>
   startOfDay example_host example_now = Some 1749967200000 \<and>
   endOfWeek example_host example_now = Some (1749967200000 + 7 * msPerDay) \<and>
   getDay example_host (Some 1750269600000) = Some 3 \<and>
   startOfDay example_host 1750269600000 = Some 1750226400000 \<and>
   endOfWeek example_host 1750269600000 = Some (1750226400000 + 4 * msPerDay) \<and>
   getDay example_host (Some 1750528800000) = Some 6 \<and>
   startOfDay example_host 1750528800000 = Some 1750485600000 \<and>
   endOfWeek example_host 1750528800000 = Some (1750485600000 + 1 * msPerDay) \<and>
   toISOString (Some 1750572000000) = Inr ''2025-06-22T06:00:00.000Z'' \<and>
   TimeWithinDay (LocalTime example_host 1750572000000) = 0 \<and>
   WeekDay (LocalTime example_host 1750572000000) = 0 \<and>
   getDay denver_2025 (Some 1741543200000) = Some 0 \<and>
   startOfDay denver_2025 1741543200000 = Some 1741503600000 \<and>
   endOfWeek denver_2025 1741543200000 = Some 1742104800000 \<and>
   localDay denver_2025 1742104800000 = localDay denver_2025 1741503600000 + 7 \<and>
   TimeWithinDay (LocalTime denver_2025 1742104800000) = 0 \<and>
   WeekDay (LocalTime denver_2025 1742104800000) = 0 \<and>
   1742104800000 = 1741503600000 + 7 * msPerDay - (- 21600000 - (- 25200000))"
proof -
  have gen: "TimeWithinDay (LocalTime h Y) = 0 \<and> WeekDay (LocalTime h Y) = 0 \<and>
      localDay h Y = localDay h X + (7 - k) \<and>
      Y = X + (7 - k) * msPerDay - (LocalTZA h Y True - LocalTZA h X True)"
    if "clock_range now" "zone_regular h" "startOfDay h now = Some X"
      "endOfWeek h now = Some Y" "getDay h (Some now) = Some k"
      "local_time_exists h (MakeDate (localDay h now) 0)"
      "local_time_exists h (MakeDate (localDay h now + (7 - k)) 0)" for h now X Y k
  proof -
    from endOfWeek_next_sunday [OF that(1,2)]
    obtain sod eow w where
      a: "startOfDay h now = Some sod" "endOfWeek h now = Some eow"
         "getDay h (Some now) = Some w" and
      b: "local_time_exists h (MakeDate (localDay h now) 0) \<and>
          local_time_exists h (MakeDate (localDay h now + (7 - w)) 0) \<longrightarrow>
            TimeWithinDay (LocalTime h sod) = 0 \<and>
            localDay h eow = localDay h sod + (7 - w) \<and>
            TimeWithinDay (LocalTime h eow) = 0 \<and>
            WeekDay (LocalTime h eow) = 0 \<and>
            eow = sod + (7 - w) * msPerDay - (LocalTZA h eow True - LocalTZA h sod True)"
      by (elim exE conjE) (rule that; assumption)
    have e: "sod = X" "eow = Y" "w = k" using a that(3-5) by simp_all
    show ?thesis using b that(6,7) unfolding e by simp
  qed
  have r: "clock_range 1750269600000" "clock_range 1750528800000" "clock_range 1741543200000"
    by (simp_all add: clock_range_def msPerDay_def)
  have z: "LocalTZA example_host t b = - 21600000" for t b
    by (simp add: example_host_def zone_host_def fixed_zone_def)
  have anchor: "WeekDay 0 = 4" by (simp add: WeekDay_def Day_def msPerDay_def)
  have i1: "toISOString (Some example_now) = Inr ''2025-06-15T18:00:00.000Z''"
    and i2: "toISOString (Some 1750572000000) = Inr ''2025-06-22T06:00:00.000Z''"
    by code_simp+
  have s0: "getDay example_host (Some example_now) = Some 0"
    and s1: "local_time_exists example_host (MakeDate (localDay example_host example_now) 0)"
    and s2: "local_time_exists example_host (MakeDate (localDay example_host example_now + (7 - 0)) 0)"
    by code_simp+
  have w0: "getDay example_host (Some 1750269600000) = Some 3"
    and w1: "startOfDay example_host 1750269600000 = Some 1750226400000"
    and w2: "endOfWeek example_host 1750269600000 = Some 1750572000000"
    and w3: "local_time_exists example_host (MakeDate (localDay example_host 1750269600000) 0)"
    and w4: "local_time_exists example_host
               (MakeDate (localDay example_host 1750269600000 + (7 - 3)) 0)"
    by code_simp+
  have t0: "getDay example_host (Some 1750528800000) = Some 6"
    and t1: "startOfDay example_host 1750528800000 = Some 1750485600000"
    and t2: "endOfWeek example_host 1750528800000 = Some 1750572000000"
    and t3: "local_time_exists example_host (MakeDate (localDay example_host 1750528800000) 0)"
    and t4: "local_time_exists example_host
               (MakeDate (localDay example_host 1750528800000 + (7 - 6)) 0)"
    by code_simp+
  have d0: "getDay denver_2025 (Some 1741543200000) = Some 0"
    and d1: "startOfDay denver_2025 1741543200000 = Some 1741503600000"
    and d2: "endOfWeek denver_2025 1741543200000 = Some 1742104800000"
    and d3: "local_time_exists denver_2025 (MakeDate (localDay denver_2025 1741543200000) 0)"
    and d4: "local_time_exists denver_2025
               (MakeDate (localDay denver_2025 1741543200000 + (7 - 0)) 0)"
    and d5: "LocalTZA denver_2025 1742104800000 True = - 21600000"
    and d6: "LocalTZA denver_2025 1741503600000 True = - 25200000"
    by code_simp+
  note B = example_boundaries
  note G0 = gen [OF example_clock_range example_host_regular B(1) B(3) s0 s1 s2]
  note G3 = gen [OF r(1) example_host_regular w1 w2 w0 w3 w4]
  note G6 = gen [OF r(2) example_host_regular t1 t2 t0 t3 t4]
  note GD = gen [OF r(3) denver_regular d1 d2 d0 d3 d4]
  have e0: "endOfWeek example_host example_now = Some (1749967200000 + 7 * msPerDay)"
    using G0 B(3) by (simp add: z)
  have e3: "endOfWeek example_host 1750269600000 = Some (1750226400000 + 4 * msPerDay)"
    using G3 w2 by (simp add: z)
  have e6: "endOfWeek example_host 1750528800000 = Some (1750485600000 + 1 * msPerDay)"
    using G6 t2 by (simp add: z)
  have m0: "TimeWithinDay (LocalTime example_host 1750572000000) = 0"
    and m1: "WeekDay (LocalTime example_host 1750572000000) = 0"
    using G3 by simp_all
  have n0: "localDay denver_2025 1742104800000 = localDay denver_2025 1741503600000 + 7"
    and n1: "TimeWithinDay (LocalTime denver_2025 1742104800000) = 0"
    and n2: "WeekDay (LocalTime denver_2025 1742104800000) = 0"
    and n3: "1742104800000 = 1741503600000 + 7 * msPerDay - (- 21600000 - (- 25200000))"
    using GD unfolding d5 d6 by simp_all
  show ?thesis
    using example_clock_range example_host_regular denver_regular anchor i1 s0 B(1) e0
      w0 w1 e3 t0 t1 e6 i2 m0 m1 d0 d1 d2 n0 n1 n2 n3
    by (intro conjI) assumption+
qed

text \<open>
  Claim C4. An event whose date is absent, or does not parse to a valid time value, fails
  the time predicate under each of the four time filters and is in no filtered list of
  either screen. The filters are total functions: there is no error result.
\<close>

theorem invalid_date_never_matches:
  assumes "date ev = None \<or> new_Date_value h (date ev) = None"
  shows "\<not> timeMatch h now ''Today'' ev \<and> \<not> timeMatch h now ''This Week'' ev \<and>
         \<not> timeMatch h now ''This Month'' ev \<and> \<not> timeMatch h now ''Next Month'' ev \<and>
         ev \<notin> set (SportsScreen_filteredEvents h now events timeFilter categoryFilter) \<and>
         ev \<notin> set (MusicScreen_filteredEvents h now events timeFilter genreFilter)"
proof -
  have "new_Date_value h (date ev) = None"
    using assms by (auto simp add: new_Date_value_def)
  then have "\<not> timeMatch h now f ev" for f
    by (rule timeMatch_invalid_date)
  then show ?thesis
    by (simp add: SportsScreen_filteredEvents_def MusicScreen_filteredEvents_def)
qed

theorem invalid_date_never_matches_witness:
  "date (example_event (Some ''NFL'') None) = None \<and>
   new_Date_value example_host (date (example_event (Some ''NFL'') (Some ''next Sunday''))) = None \<and>
   \<not> timeMatch example_host example_now ''This Month'' (example_event (Some ''NFL'') None) \<and>
   \<not> timeMatch example_host example_now ''This Month''
       (example_event (Some ''NFL'') (Some ''next Sunday'')) \<and>
   SportsScreen_filteredEvents example_host example_now
     [example_event (Some ''NFL'') None, example_event (Some ''NFL'') (Some ''next Sunday'')]
     ''This Month'' ''Sports'' = []"
proof -
  have a: "date (example_event (Some ''NFL'') None) = None"
    by (simp add: example_event_def)
  have b: "new_Date_value example_host (date (example_event (Some ''NFL'') (Some ''next Sunday'')))
      = None"
    by code_simp
  have 1: "\<not> timeMatch example_host example_now ''This Month'' (example_event (Some ''NFL'') None)"
    using invalid_date_never_matches [of "example_event (Some ''NFL'') None" example_host
        example_now "[]" "''This Month''" "''Sports''" "''Music''"] a
    by simp
  have 2: "\<not> timeMatch example_host example_now ''This Month''
      (example_event (Some ''NFL'') (Some ''next Sunday''))"
    using invalid_date_never_matches [of "example_event (Some ''NFL'') (Some ''next Sunday'')"
        example_host example_now "[]" "''This Month''" "''Sports''" "''Music''"] b
    by simp
  show ?thesis
    using a b 1 2 by (simp add: SportsScreen_filteredEvents_def)
qed




text \<open>
  Claim C6. With the catch-all category ("Sports" in the sports screen, "Music" in the
  music screen) the filtered list is exactly the list of the events that satisfy the
  time predicate, in their original order: it is the filter of the input by the time
  predicate alone, and a subsequence of the input.
\<close>

theorem catch_all_keeps_time_matches:
  "SportsScreen_filteredEvents h now events timeFilter ''Sports'' =
     filter (timeMatch h now timeFilter) events \<and>
   MusicScreen_filteredEvents h now events timeFilter ''Music'' =
     filter (timeMatch h now timeFilter) events \<and>
   subseq (SportsScreen_filteredEvents h now events timeFilter ''Sports'') events \<and>
   subseq (MusicScreen_filteredEvents h now events timeFilter ''Music'') events"
  by (simp add: SportsScreen_filteredEvents_def MusicScreen_filteredEvents_def
      SportsScreen_categoryMatch_def MusicScreen_categoryMatch_def)

theorem catch_all_keeps_time_matches_witness:
  "SportsScreen_filteredEvents example_host example_now
     [example_event None (Some ''2025-06-15T20:00:00''),
      example_event None None,
      example_event (Some ''NBA'') (Some ''2025-06-15T09:30:00'')]
     ''Today'' ''Sports''
   = [example_event None (Some ''2025-06-15T20:00:00''),
      example_event (Some ''NBA'') (Some ''2025-06-15T09:30:00'')]"
proof -
  have 1: "timeMatch example_host example_now ''Today''
      (example_event None (Some ''2025-06-15T20:00:00''))"
    by code_simp
  have 2: "\<not> timeMatch example_host example_now ''Today'' (example_event None None)"
    by code_simp
  have 3: "timeMatch example_host example_now ''Today''
      (example_event (Some ''NBA'') (Some ''2025-06-15T09:30:00''))"
    by code_simp
  show ?thesis
    using catch_all_keeps_time_matches [of example_host example_now
        "[example_event None (Some ''2025-06-15T20:00:00''), example_event None None,
          example_event (Some ''NBA'') (Some ''2025-06-15T09:30:00'')]" "''Today''"]
      1 2 3
    by simp
qed

text \<open>
  Claim C7 (the code departs from it on the last days of a month). On a transport
  failure, and on a response without events, the fetch returns the mock list. The fifth
  mock event is dated by \<^verbatim>\<open>nextMonth.setMonth(today.getMonth() + 1)\<close>, which keeps the day of
  the month; when the next month has no such day, the date runs over into the month after
  it. With the clock at 2025-01-31T12:00:00 of the example host, the list has its five
  events with the dates of 31 January (twice), 1 February and 7 February, but the fifth is
  dated 3 March 2025: it is after endOfNextMonth (the end of February), so neither the
  filter Next Month nor the filter This Month shows it.
\<close>

theorem mock_next_month_overflow:
  "api_fetchTicketmasterEvents h clk TransportFailure = mockApi_fetchTicketmasterEvents h clk \<and>
   api_fetchTicketmasterEvents h clk (Json None) = mockApi_fetchTicketmasterEvents h clk \<and>
   api_fetchTicketmasterEvents h clk (Json (Some [])) = mockApi_fetchTicketmasterEvents h clk \<and>
   localDate example_host (today_reading month_end_clock) = (2025, 0, 31) \<and>
   nextMonthDate (2025, 0, 31) = None \<and>
   \<not> isl (mockApi_fetchTicketmasterEvents example_host month_end_clock) \<and>
   map event_id (projr (mockApi_fetchTicketmasterEvents example_host month_end_clock)) =
     [Some ''tm-1'', Some ''tm-2'', Some ''tm-3'', Some ''tm-4'', Some ''tm-5''] \<and>
   map date (projr (mockApi_fetchTicketmasterEvents example_host month_end_clock)) =
     [Some ''2025-01-31T18:00:00.000Z'', Some ''2025-01-31T18:00:00.000Z'',
      Some ''2025-02-01T18:00:00.001Z'', Some ''2025-02-07T18:00:00.002Z'',
      Some ''2025-03-03T18:00:00.003Z''] \<and>
   new_Date_value example_host (Some ''2025-03-03T18:00:00.003Z'') = Some 1741024800003 \<and>
   localDate example_host 1741024800003 = (2025, 2, 3) \<and>
   endOfMonth example_host (today_reading month_end_clock) = Some 1738389599999 \<and>
   endOfNextMonth example_host (today_reading month_end_clock) = Some 1740808799999 \<and>
   toISOString (Some 1740808799999) = Inr ''2025-03-01T05:59:59.999Z'' \<and>
   \<not> timeMatch example_host (today_reading month_end_clock) ''Next Month''
       (last (projr (mockApi_fetchTicketmasterEvents example_host month_end_clock))) \<and>
   \<not> timeMatch example_host (today_reading month_end_clock) ''This Month''
       (last (projr (mockApi_fetchTicketmasterEvents example_host month_end_clock)))"
proof -
  have f: "api_fetchTicketmasterEvents h clk TransportFailure = mockApi_fetchTicketmasterEvents h clk"
    "api_fetchTicketmasterEvents h clk (Json None) = mockApi_fetchTicketmasterEvents h clk"
    "api_fetchTicketmasterEvents h clk (Json (Some [])) = mockApi_fetchTicketmasterEvents h clk"
    by (simp_all add: api_fetchTicketmasterEvents_def)
  have r: "today_reading month_end_clock = 1738346400000"
    "tomorrow_reading month_end_clock = 1738346400001"
    "nextWeek_reading month_end_clock = 1738346400002"
    "nextMonth_reading month_end_clock = 1738346400003"
    by (simp_all add: month_end_clock_def)
  have l0: "localDate example_host 1738346400000 = (2025, 0, 31)"
    and nm: "nextMonthDate (2025, 0, 31) = None"
    and l3: "localDate example_host 1741024800003 = (2025, 2, 3)"
    by code_simp+
  have s1: "setDate example_host (Some 1738346400001)
        (num_add (getDate example_host (Some 1738346400000)) (Some 1)) = Some 1738432800001"
    and s2: "setDate example_host (Some 1738346400002)
        (num_add (getDate example_host (Some 1738346400000)) (Some 7)) = Some 1738951200002"
    and s3: "setMonth example_host (Some 1738346400003)
        (num_add (getMonth example_host (Some 1738346400000)) (Some 1)) = Some 1741024800003"
    by code_simp+
  have t0: "toISOString (Some 1738346400000) = Inr ''2025-01-31T18:00:00.000Z''"
    and t1: "toISOString (Some 1738432800001) = Inr ''2025-02-01T18:00:00.001Z''"
    and t2: "toISOString (Some 1738951200002) = Inr ''2025-02-07T18:00:00.002Z''"
    and t3: "toISOString (Some 1741024800003) = Inr ''2025-03-03T18:00:00.003Z''"
    and t4: "toISOString (Some 1740808799999) = Inr ''2025-03-01T05:59:59.999Z''"
    by code_simp+
  have m: "mockApi_fetchTicketmasterEvents example_host month_end_clock =
      Inr [ \<lparr> event_id = Some ''tm-1'', name = Some ''Mock: Indie Showcase'',
              category = Some ''Music'', subcategory = None,
              date = Some ''2025-01-31T18:00:00.000Z'',
              venueName = Some ''The Mockingbird Theater'',
              imageUrl = ''https://placehold.co/600x400/1a202c/ffffff?text=Mock+Music'',
              address = ''123 Mock St, Denver, CO'' \<rparr>,
            \<lparr> event_id = Some ''tm-2'', name = Some ''Mock: Broncos Game'',
              category = Some ''Sports'', subcategory = Some ''NFL'',
              date = Some ''2025-01-31T18:00:00.000Z'',
              venueName = Some ''Mock Field'',
              imageUrl = ''https://placehold.co/600x400/FB4F14/ffffff?text=Mock+Football'',
              address = ''456 Mock Ave, Denver, CO'' \<rparr>,
            \<lparr> event_id = Some ''tm-3'', name = Some ''Mock: Jazz Night'',
              category = Some ''Music'', subcategory = None,
              date = Some ''2025-02-01T18:00:00.001Z'',
              venueName = Some ''The Mock Note'',
              imageUrl = ''https://placehold.co/600x400/4a5568/ffffff?text=Mock+Jazz'',
              address = ''789 Mock Blvd, Denver, CO'' \<rparr>,
            \<lparr> event_id = Some ''tm-4'', name = Some ''Mock: Nuggets Game'',
              category = Some ''Sports'', subcategory = Some ''NBA'',
              date = Some ''2025-02-07T18:00:00.002Z'',
              venueName = Some ''Mock Arena'',
              imageUrl = ''https://placehold.co/600x400/0E2240/ffffff?text=Mock+Basketball'',
              address = ''111 Mock Ct, Denver, CO'' \<rparr>,
            \<lparr> event_id = Some ''tm-5'', name = Some ''Mock: Art Festival'',
              category = Some ''Social'', subcategory = None,
              date = Some ''2025-03-03T18:00:00.003Z'',
              venueName = Some ''Mock Museum'',
              imageUrl = ''https://placehold.co/600x400/718096/ffffff?text=Mock+Art'',
              address = ''222 Mock Ln, Denver, CO'' \<rparr> ]"
    unfolding mockApi_fetchTicketmasterEvents_def Let_def r s1 s2 s3 t0 t1 t2 t3 by simp
  have p: "new_Date_value example_host (Some ''2025-03-03T18:00:00.003Z'') = Some 1741024800003"
    by code_simp
  have em: "endOfMonth example_host 1738346400000 = Some 1738389599999"
    and en: "endOfNextMonth example_host 1738346400000 = Some 1740808799999"
    by code_simp+
  have d5: "date (last (projr (mockApi_fetchTicketmasterEvents example_host month_end_clock))) =
      Some ''2025-03-03T18:00:00.003Z''"
    unfolding m by simp
  have p5: "new_Date_value example_host
      (date (last (projr (mockApi_fetchTicketmasterEvents example_host month_end_clock)))) =
      Some 1741024800003"
    unfolding d5 by (rule p)
  have n1: "\<not> timeMatch example_host (today_reading month_end_clock) ''Next Month''
       (last (projr (mockApi_fetchTicketmasterEvents example_host month_end_clock)))"
    unfolding timeMatch_table(4) [OF p5] r en by (simp add: num_le_def)
  have n2: "\<not> timeMatch example_host (today_reading month_end_clock) ''This Month''
       (last (projr (mockApi_fetchTicketmasterEvents example_host month_end_clock)))"
    unfolding timeMatch_table(3) [OF p5] r em by (simp add: num_le_def)
  have i: "\<not> isl (mockApi_fetchTicketmasterEvents example_host month_end_clock)"
    unfolding m by simp
  have ids: "map event_id (projr (mockApi_fetchTicketmasterEvents example_host month_end_clock)) =
     [Some ''tm-1'', Some ''tm-2'', Some ''tm-3'', Some ''tm-4'', Some ''tm-5'']"
    unfolding m by simp
  have ds: "map date (projr (mockApi_fetchTicketmasterEvents example_host month_end_clock)) =
     [Some ''2025-01-31T18:00:00.000Z'', Some ''2025-01-31T18:00:00.000Z'',
      Some ''2025-02-01T18:00:00.001Z'', Some ''2025-02-07T18:00:00.002Z'',
      Some ''2025-03-03T18:00:00.003Z'']"
    unfolding m by simp
  show ?thesis
    using f l0 [folded r(1)] nm i ids ds p l3 em [folded r(1)] en [folded r(1)] t4 n1 n2
    by (intro conjI) assumption+
qed

text \<open>
  Claim C8. On the empty list pick returns none, and the modal given that suggestion
  renders nothing, whatever its visible flag; on a singleton it returns the element; on
  a non-empty list it returns an element of the list; and of the draws 0..<length, the
  number that pick an event e is the number of positions holding e, so a uniform draw
  picks every position with the same probability.
\<close>

theorem pick_contract:
  "pick r [] = None \<and>
   FindMyNightModal visible (pick r []) = Inr None \<and>
   pick r [e] = Some e \<and>
   (candidates \<noteq> [] \<longrightarrow> (\<exists>c \<in> set candidates. pick r candidates = Some c)) \<and>
   (\<forall>i < length candidates. pick i candidates = Some (candidates ! i)) \<and>
   card {i. i < length candidates \<and> pick i candidates = Some c} = count_list candidates c"
proof -
  have pos: "pick i candidates = Some (candidates ! i)" if "i < length candidates" for i
    using that by (auto simp add: pick_def)
  have "{i. i < length candidates \<and> pick i candidates = Some c} =
      {i. i < length candidates \<and> candidates ! i = c}"
    using pos by auto
  then have cnt: "card {i. i < length candidates \<and> pick i candidates = Some c} =
      count_list candidates c"
    by (simp add: card_positions)
  have mem: "\<exists>c \<in> set candidates. pick r candidates = Some c" if "candidates \<noteq> []"
    using that by (simp add: pick_def)
  show ?thesis
    using pos cnt mem by (simp add: pick_def FindMyNightModal_def)
qed

theorem pick_contract_witness:
  "pick 7 [] = None \<and>
   FindMyNightModal True (pick 7 []) = Inr None \<and>
   pick 7 [example_event None None] = Some (example_event None None) \<and>
   pick 1 [example_event None None, example_event (Some ''NBA'') None]
     = Some (example_event (Some ''NBA'') None) \<and>
   card {i. i < length [example_event None None, example_event (Some ''NBA'') None] \<and>
            pick i [example_event None None, example_event (Some ''NBA'') None]
              = Some (example_event (Some ''NBA'') None)} = 1"
proof -
  have ne: "example_event None None \<noteq> example_event (Some ''NBA'') None"
    by (simp add: example_event_def)
  have p: "pick 1 [example_event None None, example_event (Some ''NBA'') None]
     = Some (example_event (Some ''NBA'') None)"
    using pick_contract [of _ _ _ "[example_event None None, example_event (Some ''NBA'') None]"]
    by simp
  note T = pick_contract [of 7 True "example_event None None"
      "[example_event None None, example_event (Some ''NBA'') None]"
      "example_event (Some ''NBA'') None"]
  have 1: "pick 7 [] = None" using T by blast
  have 2: "FindMyNightModal True (pick 7 []) = Inr None" using T by blast
  have 3: "pick 7 [example_event None None] = Some (example_event None None)" using T by blast
  have "card {i. i < length [example_event None None, example_event (Some ''NBA'') None] \<and>
            pick i [example_event None None, example_event (Some ''NBA'') None]
              = Some (example_event (Some ''NBA'') None)} =
        count_list [example_event None None, example_event (Some ''NBA'') None]
          (example_event (Some ''NBA'') None)"
    using T by blast
  also have "\<dots> = 1" using ne by simp
  finally show ?thesis using 1 2 3 p by blast
qed




text \<open>
  Claim C10. An event produced by the normalizer has a subcategory and a category, both
  non-empty strings: the subcategory is "N/A" when the payload has no subGenre name, the
  category is "Social" when it has no segment name. So, in the music screen, a normalized
  event without subGenre matches every genre filter whose lower-cased text is a substring
  of "n/a". A response with events is normalized event by event.
\<close>

theorem normalized_subcategory_present:
  "(\<exists>s. subcategory (normalizeEvent raw) = Some s \<and> s \<noteq> []) \<and>
   (\<exists>c. category (normalizeEvent raw) = Some c \<and> c \<noteq> []) \<and>
   (Option.bind (first_of (classifications raw)) subGenre_name = None \<longrightarrow>
      subcategory (normalizeEvent raw) = Some ''N/A'') \<and>
   (Option.bind (first_of (classifications raw)) segment_name = None \<longrightarrow>
      category (normalizeEvent raw) = Some ''Social'') \<and>
   (Option.bind (first_of (classifications raw)) subGenre_name = None \<and>
    sublist (toLowerCase genreFilter) ''n/a'' \<longrightarrow>
      MusicScreen_categoryMatch genreFilter (normalizeEvent raw)) \<and>
   api_fetchTicketmasterEvents h clk (Json (Some (raw # raws))) =
     Inr (map normalizeEvent (raw # raws))"
proof -
  have low: "toLowerCase ''N/A'' = ''n/a''"
    by code_simp
  have m: "MusicScreen_categoryMatch genreFilter (normalizeEvent raw)"
    if "Option.bind (first_of (classifications raw)) subGenre_name = None"
      and "sublist (toLowerCase genreFilter) ''n/a''"
    using that
    by (simp add: MusicScreen_categoryMatch_def normalizeEvent_def or_default_def low
        str_includes_sublist)
  show ?thesis
    using m
    by (simp add: normalizeEvent_def or_default_nonempty api_fetchTicketmasterEvents_def)
      (simp add: or_default_def)
qed

theorem normalized_subcategory_present_witness:
  "subcategory (normalizeEvent
      \<lparr> raw_id = Some ''G5v0Z9'', raw_name = Some ''Open Mic'', classifications = None,
        dates_start_dateTime = Some ''2025-06-15T20:00:00Z'', embedded_venues = None,
        images = None \<rparr>) = Some ''N/A'' \<and>
   category (normalizeEvent
      \<lparr> raw_id = Some ''G5v0Z9'', raw_name = Some ''Open Mic'', classifications = None,
        dates_start_dateTime = Some ''2025-06-15T20:00:00Z'', embedded_venues = None,
        images = None \<rparr>) = Some ''Social'' \<and>
   MusicScreen_categoryMatch ''A''
     (normalizeEvent
        \<lparr> raw_id = Some ''G5v0Z9'', raw_name = Some ''Open Mic'', classifications = None,
          dates_start_dateTime = Some ''2025-06-15T20:00:00Z'', embedded_venues = None,
          images = None \<rparr>)"
proof -
  have a: "Option.bind (first_of (classifications
      \<lparr> raw_id = Some ''G5v0Z9'', raw_name = Some ''Open Mic'', classifications = None,
        dates_start_dateTime = Some ''2025-06-15T20:00:00Z'', embedded_venues = None,
        images = None \<rparr>)) f = None" for f :: "raw_classification \<Rightarrow> string option"
    by (simp add: first_of_def)
  have b: "sublist (toLowerCase ''A'') ''n/a''"
    by code_simp
  show ?thesis
    using normalized_subcategory_present [of
        "\<lparr> raw_id = Some ''G5v0Z9'', raw_name = Some ''Open Mic'', classifications = None,
          dates_start_dateTime = Some ''2025-06-15T20:00:00Z'', embedded_venues = None,
          images = None \<rparr>" "''A''"] a b
    by simp
qed

end
